theory Spec2Isabelle
  imports Complex_Main "HOL-Library.Multiset"
begin

section \<open>Uni-Dock \<open>main.cpp\<close>: the execution orchestrator\<close>

text \<open>
  The development follows \<open>src/main/main.cpp\<close>: the peak-memory predictor
  (\<open>predict_peak_memory\<close>, lines 69--80), the validation of the command line
  (lines 313--410), the set-up of the engine and the mode dispatch (lines 445--528), the
  device memory probe (lines 530--552), the parallel ligand parse (lines 553--563) and
  the batch scheduling loop (lines 569--609).

  Conventions of the embedding.
  \<^item> C++ \<open>int\<close> values are HOL \<open>int\<close>, counters and sizes that never go below zero
    (\<open>size_t\<close>, \<open>batch_size\<close>, \<open>processed_ligands\<close>) are \<open>nat\<close>. A C++ \<open>int\<close> has 32
    bits: where the source converts to \<open>int\<close> or passes an \<open>int\<close> to the predictor, a
    value outside \<open>int_range\<close> is undefined behaviour, the value \<open>Undefined\<close> of the type
    \<open>behaviour\<close>.
  \<^item> \<open>double\<close> values are the reals that IEEE 754 binary64 represents, and every
    \<open>double\<close> operation and literal of the predictor is rounded to the nearest of them,
    ties to even (\<open>to_double\<close>), one operation at a time. The budget \<open>max_memory\<close> is a
    real number.
  \<^item> The docking engine (class \<open>Vina\<close>), the ligand parser and CUDA are external:
    their calls appear as events of a trace, their results as parameters.
\<close>

subsection \<open>Double precision\<close>

text \<open>
  Rounding to the nearest binary64 number, ties to even. A real \<open>x\<close> other than 0 is
  scaled by powers of two until its magnitude \<open>m\<close> is in \<open>[2^52, 2^53)\<close>, so that
  \<open>x = m * s\<close>; the 53-bit significand is \<open>m\<close> rounded to an integer. The scaling takes
  at most 2200 steps for every magnitude that binary64 has (\<open>2^-1074\<close> to \<open>2^1024\<close>).
  Subnormal numbers and infinities are not modelled: the predictor converts 32-bit
  integers, multiplies them with constants between 0.003 and 20053 and adds the
  products, so each of its values is 0 or has a magnitude between \<open>2^-61\<close> and \<open>2^80\<close>.
\<close>

definition round_half_even :: "real \<Rightarrow> int" where
  "round_half_even x =
     (let f = \<lfloor>x\<rfloor>; d = x - of_int f
      in if d < 1 / 2 then f else if 1 / 2 < d then f + 1 else if even f then f else f + 1)"

fun normalize :: "nat \<Rightarrow> real \<Rightarrow> real \<Rightarrow> real \<times> real" where
  "normalize 0 m s = (m, s)"
| "normalize (Suc fuel) m s =
     (if \<bar>m\<bar> < 2 ^ 52 then normalize fuel (2 * m) (s / 2)
      else if 2 ^ 53 \<le> \<bar>m\<bar> then normalize fuel (m / 2) (2 * s)
      else (m, s))"

definition to_double :: "real \<Rightarrow> real" where
  "to_double x =
     (if x = 0 then 0
      else (case normalize 2200 x 1 of (m, s) \<Rightarrow> of_int (round_half_even m) * s))"

text \<open>The product and the sum of two \<open>double\<close> values.\<close>

definition dmul :: "real \<Rightarrow> real \<Rightarrow> real" where
  "dmul a b = to_double (a * b)"

definition dadd :: "real \<Rightarrow> real \<Rightarrow> real" where
  "dadd a b = to_double (a + b)"

text \<open>The values of a 32-bit \<open>int\<close>, and the outcome of an expression whose behaviour
  may be undefined.\<close>

definition int_range :: "int \<Rightarrow> bool" where
  "int_range x = (- (2 ^ 31) \<le> x \<and> x < 2 ^ 31)"

datatype 'a behaviour = Undefined | Defined 'a

text \<open>The implicit conversion of a \<open>double\<close> to the \<open>int\<close> return type: truncation
  towards zero, undefined when the truncated value is not an \<open>int\<close>.\<close>

definition double_to_int :: "real \<Rightarrow> int behaviour" where
  "double_to_int x =
     (let t = (if 0 \<le> x then \<lfloor>x\<rfloor> else \<lceil>x\<rceil>)
      in if int_range t then Defined t else Undefined)"

subsection \<open>The peak-memory predictor\<close>

text \<open>
  \<open>int predict_peak_memory(int batch_size, int exhaustiveness, int all_atom2_numbers,
  bool use_v100 = true, bool ad4 = false)\<close>, lines 69--80. The parameters are \<open>int\<close>:
  the function has no value at arguments that are not. Each return expression is
  \<open>((c0*batch_size + (c1*exhaustiveness)*batch_size) + c2*all_atom2_numbers) + c3\<close> in
  \<open>double\<close>, the integers converted exactly.
\<close>

definition predict_peak_memory :: "int \<Rightarrow> int \<Rightarrow> int \<Rightarrow> bool \<Rightarrow> bool \<Rightarrow> int behaviour" where
  "predict_peak_memory batch_size exhaustiveness all_atom2_numbers use_v100 ad4 =
     (if \<not> (int_range batch_size \<and> int_range exhaustiveness \<and> int_range all_atom2_numbers)
      then Undefined
      else if use_v100 then
        (if ad4 then
           double_to_int
             (dadd (dadd (dadd (dmul (to_double 1.911645) (of_int batch_size))
                               (dmul (dmul (to_double 0.0039108) (of_int exhaustiveness))
                                     (of_int batch_size)))
                         (dmul (to_double 0.0792161) (of_int all_atom2_numbers)))
                   (to_double 20052.64))
         else
           double_to_int
             (dadd (dadd (dadd (dmul (to_double 1.214869) (of_int batch_size))
                               (dmul (dmul (to_double 0.0038522) (of_int exhaustiveness))
                                     (of_int batch_size)))
                         (dmul (to_double 0.011978) (of_int all_atom2_numbers)))
                   (to_double 20017.72)))
      else
        double_to_int
          (dadd (dadd (dadd (dmul (to_double 1.166067) (of_int batch_size))
                            (dmul (dmul (to_double 0.0038676) (of_int exhaustiveness))
                                  (of_int batch_size)))
                      (dmul (to_double 0.0119598) (of_int all_atom2_numbers)))
                (to_double 5313.848)))"

text \<open>The specification's words (section 4.3): a table of coefficients \<open>c0..c3\<close>, chosen
  by device class and scoring-function family, and the formula
  \<open>predicted = c0*batch_size + c1*exhaustiveness*batch_size + c2*cost + c3\<close>.\<close>

definition spec_coefficients :: "bool \<Rightarrow> bool \<Rightarrow> real \<times> real \<times> real \<times> real" where
  "spec_coefficients high_memory ad4 =
     (if high_memory then
        (if ad4 then (1.911645, 0.0039108, 0.0792161, 20052.64)
         else (1.214869, 0.0038522, 0.011978, 20017.72))
      else (1.166067, 0.0038676, 0.0119598, 5313.848))"

fun spec_predicted :: "real \<times> real \<times> real \<times> real \<Rightarrow> int \<Rightarrow> int \<Rightarrow> int \<Rightarrow> real" where
  "spec_predicted (c0, c1, c2, c3) batch_size exhaustiveness cost =
     c0 * of_int batch_size + c1 * of_int exhaustiveness * of_int batch_size
     + c2 * of_int cost + c3"

text \<open>The same formula with every constant, product and sum rounded to \<open>double\<close>, in
  the order in which it is written.\<close>

fun double_predicted :: "real \<times> real \<times> real \<times> real \<Rightarrow> int \<Rightarrow> int \<Rightarrow> int \<Rightarrow> real" where
  "double_predicted (c0, c1, c2, c3) batch_size exhaustiveness cost =
     dadd (dadd (dadd (dmul (to_double c0) (of_int batch_size))
                      (dmul (dmul (to_double c1) (of_int exhaustiveness)) (of_int batch_size)))
                (dmul (to_double c2) (of_int cost)))
          (to_double c3)"

text \<open>
  Two notions for the rounding error of the predictor. \<open>approx k y x\<close>: the computed
  value \<open>y\<close> is the exact value \<open>x\<close> up to \<open>k\<close> roundings, each of a relative error of
  at most \<open>2^-53\<close>. \<open>mag h x\<close>: the exact value \<open>x\<close> is 0 or between \<open>2^-9\<close> and \<open>2^h\<close>.
\<close>

definition approx :: "nat \<Rightarrow> real \<Rightarrow> real \<Rightarrow> bool" where
  "approx k y x = (x * (1 - 1 / 2 ^ 53) ^ k \<le> y \<and> y \<le> x * (1 + 1 / 2 ^ 53) ^ k)"

definition mag :: "nat \<Rightarrow> real \<Rightarrow> bool" where
  "mag h x = ((x = 0 \<or> 1 / 2 ^ 9 \<le> x) \<and> x \<le> 2 ^ h)"

subsection \<open>The device memory probe\<close>

text \<open>Lines 532--552. \<open>deviceCount\<close> is what \<open>cudaGetDeviceCount\<close> reports, \<open>avail\<close> the
  free device memory in bytes that \<open>cudaMemGetInfo\<close> reports for device 0, and
  \<open>max_gpu_memory\<close> the value of \<open>--max_gpu_memory\<close> (default 0). The result is the pair
  of \<open>max_memory\<close> (the budget in MiB) and \<open>use_v100\<close> (the device class flag).\<close>

definition probe :: "int \<Rightarrow> nat \<Rightarrow> int \<Rightarrow> real \<times> bool" where
  "probe deviceCount avail max_gpu_memory =
     (let max_memory = (if deviceCount > 0 then of_nat (avail div 1024 div 1024) * 0.95
                        else 32000);
          use_v100 = (if max_memory < 17000 then False else True);
          max_memory = (if max_gpu_memory > 0 \<and> of_int max_gpu_memory < max_memory
                        then of_int max_gpu_memory else max_memory)
      in (max_memory, use_v100))"


subsection \<open>The variables of \<open>main\<close>\<close>

text \<open>
  The local variables of \<open>main\<close> that decide its control flow, under their names in the
  source (\<open>help\<close> is \<open>help_flag\<close>). \<open>vm\<close> is the \<open>variables_map\<close> of the parsed
  command line and configuration file, reduced to the names of the options that occur:
  \<open>vm.count("receptor")\<close> is \<open>vm_count L ''receptor''\<close>. The last four fields are the
  variables of the GPU branch (lines 531--538).
\<close>

record locals =
  vm :: "string list"
  ligand_names :: "string list"
  gpu_batch_ligand_names :: "string list"
  ligand_index :: string
  out_name :: string
  out_dir :: string
  sf_name :: string
  search_mode :: string
  exhaustiveness :: int
  max_step :: int
  max_gpu_memory :: int
  score_only :: bool
  local_only :: bool
  randomize_only :: bool
  autobox :: bool
  help_flag :: bool
  help_advanced :: bool
  version :: bool
  receptor_atom_numbers :: int
  max_memory :: real
  use_v100 :: bool
  ad4 :: bool

definition vm_count :: "locals \<Rightarrow> string \<Rightarrow> bool" where
  "vm_count L name = (name \<in> set (vm L))"

text \<open>The reasons for which validation ends the run with exit code 1: the
  \<open>exit(EXIT_FAILURE)\<close> of lines 331--396, in the order of the source, and the
  \<open>file_error\<close> thrown at line 403.\<close>

datatype error =
    Receptor_and_maps
  | Receptor_or_maps_missing
  | Ad4_no_receptor_allowed
  | Ad4_maps_missing
  | Unknown_scoring_function
  | Missing_ligands
  | Ligand_and_batch
  | Batch_needs_dir
  | Dir_does_not_exist
  | Output_name_required
  | File_error string

text \<open>What \<open>main\<close> does to the outside: the calls into the engine (\<open>Vina_init\<close> is the
  constructor of line 445), the notice of line 510 and the error message of a failed
  validation. The configuration summary and the progress lines are not modelled.\<close>

datatype event =
    Vina_init | Set_receptor | Set_vina_weights | Set_vinardo_weights | Set_ad4_weights
  | Load_maps | Write_maps | Set_ligand_from_file | Grid_dimensions_from_ligand
  | Compute_vina_maps | Randomize | Write_pose | Score | Show_score | Optimize
  | Global_search | Write_poses | Enable_gpu | Printf string | Cerr error

text \<open>The environment: the file system (\<open>is_directory\<close>, the whitespace-separated
  entries of the index file, \<open>None\<close> when it cannot be opened), \<open>default_output\<close> of
  \<open>utils.h\<close>, which engine calls throw, what CUDA reports and the number of atoms of
  the receptor.\<close>

record env =
  is_directory :: "string \<Rightarrow> bool"
  default_output :: "string \<Rightarrow> string"
  index_file :: "string \<Rightarrow> string list option"
  throws :: "event \<Rightarrow> bool"
  deviceCount :: int
  avail :: nat
  m_receptor_atoms :: nat

subsection \<open>Validation, lines 331--410\<close>

text \<open>Lines 331--334.\<close>

definition check_receptor_maps :: "locals \<Rightarrow> error + locals" where
  "check_receptor_maps L =
     (if vm_count L ''receptor'' \<and> vm_count L ''maps'' then Inl Receptor_and_maps else Inr L)"

text \<open>Lines 336--349: three independent tests, in this order.\<close>

definition apply_search_mode :: "locals \<Rightarrow> locals" where
  "apply_search_mode L =
     (if vm_count L ''search_mode'' then
        (let L = (if search_mode L = ''balance''
                  then L\<lparr>exhaustiveness := 1024, max_step := 20\<rparr> else L);
             L = (if search_mode L = ''fast''
                  then L\<lparr>exhaustiveness := 256, max_step := 15\<rparr> else L);
             L = (if search_mode L = ''detail''
                  then L\<lparr>exhaustiveness := 2048, max_step := 20\<rparr> else L)
         in L)
      else L)"

text \<open>Lines 351--368.\<close>

definition check_scoring :: "locals \<Rightarrow> error + locals" where
  "check_scoring L =
     (if sf_name L = ''vina'' \<or> sf_name L = ''vinardo'' then
        (if \<not> vm_count L ''receptor'' \<and> \<not> vm_count L ''maps''
         then Inl Receptor_or_maps_missing else Inr L)
      else if sf_name L = ''ad4'' then
        (if vm_count L ''receptor'' then Inl Ad4_no_receptor_allowed
         else if \<not> vm_count L ''maps'' then Inl Ad4_maps_missing
         else Inr L)
      else Inl Unknown_scoring_function)"

text \<open>Lines 370--386. The last branch of the source (\<open>ligand\<close> and \<open>dir\<close>, a warning)
  is behind the test of \<open>dir\<close> and only prints.\<close>

definition check_ligand_source :: "env \<Rightarrow> locals \<Rightarrow> error + locals" where
  "check_ligand_source E L =
     (if \<not> vm_count L ''ligand'' \<and> \<not> vm_count L ''batch'' \<and> \<not> vm_count L ''gpu_batch''
         \<and> \<not> vm_count L ''ligand_index''
      then Inl Missing_ligands
      else if vm_count L ''ligand'' \<and> (vm_count L ''batch'' \<or> vm_count L ''gpu_batch'')
      then Inl Ligand_and_batch
      else if (vm_count L ''batch'' \<or> vm_count L ''gpu_batch'') \<and> \<not> vm_count L ''dir''
      then Inl Batch_needs_dir
      else if vm_count L ''dir''
      then (if \<not> is_directory E (out_dir L) then Inl Dir_does_not_exist else Inr L)
      else Inr L)"

text \<open>Lines 388--396.\<close>

definition check_output_name :: "env \<Rightarrow> locals \<Rightarrow> error + locals" where
  "check_output_name E L =
     (if \<not> score_only L then
        (if \<not> vm_count L ''out'' \<and> length (ligand_names L) = 1
         then Inr (L\<lparr>out_name := default_output E (ligand_names L ! 0)\<rparr>)
         else if \<not> vm_count L ''out'' \<and> length (ligand_names L) \<ge> 1
         then Inl Output_name_required
         else Inr L)
      else Inr L)"

text \<open>Lines 400--410: the entries of the index file are appended to
  \<open>gpu_batch_ligand_names\<close>.\<close>

definition read_ligand_index :: "env \<Rightarrow> locals \<Rightarrow> error + locals" where
  "read_ligand_index E L =
     (if vm_count L ''ligand_index'' then
        (case index_file E (ligand_index L) of
           None \<Rightarrow> Inl (File_error (ligand_index L))
         | Some names \<Rightarrow> Inr (L\<lparr>gpu_batch_ligand_names := gpu_batch_ligand_names L @ names\<rparr>))
      else Inr L)"

definition validate :: "env \<Rightarrow> locals \<Rightarrow> error + locals" where
  "validate E L =
     (case check_receptor_maps L of Inl e \<Rightarrow> Inl e | Inr L \<Rightarrow>
      (case check_scoring (apply_search_mode L) of Inl e \<Rightarrow> Inl e | Inr L \<Rightarrow>
       (case check_ligand_source E L of Inl e \<Rightarrow> Inl e | Inr L \<Rightarrow>
        (case check_output_name E L of Inl e \<Rightarrow> Inl e | Inr L \<Rightarrow>
         read_ligand_index E L))))"

subsection \<open>Engine set-up and mode dispatch, lines 445--552\<close>

text \<open>A sequence of engine calls is performed in order; a call that throws ends it (the
  handlers of lines 613--645 then return 1). The result says whether every call returned,
  and the trace of the calls made.\<close>

fun perform :: "(event \<Rightarrow> bool) \<Rightarrow> event list \<Rightarrow> event list \<Rightarrow> bool \<times> event list" where
  "perform thr [] trace = (True, trace)"
| "perform thr (c # cs) trace =
     (if thr c then (False, trace @ [c]) else perform thr cs (trace @ [c]))"

text \<open>Lines 445--468.\<close>

definition setup_calls :: "locals \<Rightarrow> event list" where
  "setup_calls L =
     [Vina_init]
     @ (if vm_count L ''receptor'' \<or> vm_count L ''flex'' then [Set_receptor] else [])
     @ (if sf_name L = ''vina'' then [Set_vina_weights]
        else if sf_name L = ''vinardo'' then [Set_vinardo_weights]
        else [Set_ad4_weights, Load_maps]
             @ (if vm_count L ''write_maps'' then [Write_maps] else []))"

text \<open>Lines 471--507, the branch of \<open>--ligand\<close>.\<close>

definition ligand_calls :: "locals \<Rightarrow> event list" where
  "ligand_calls L =
     [Set_ligand_from_file]
     @ (if sf_name L = ''vina'' \<or> sf_name L = ''vinardo'' then
          (if vm_count L ''maps'' then [Load_maps]
           else (if (score_only L \<or> local_only L) \<and> autobox L
                 then [Grid_dimensions_from_ligand, Compute_vina_maps]
                 else [Compute_vina_maps])
                @ (if vm_count L ''write_maps'' then [Write_maps] else []))
        else [])
     @ (if randomize_only L then [Randomize, Write_pose]
        else if score_only L then [Score, Show_score]
        else if local_only L then [Optimize, Write_pose, Show_score]
        else [Global_search, Write_poses])"

text \<open>Lines 513--524, the start of the GPU batch branch.\<close>

definition gpu_calls :: "locals \<Rightarrow> event list" where
  "gpu_calls L =
     [Enable_gpu]
     @ (if sf_name L = ''vina'' \<or> sf_name L = ''vinardo'' then
          (if vm_count L ''maps'' then [Load_maps]
           else [Compute_vina_maps]
                @ (if vm_count L ''write_maps'' then [Write_maps] else []))
        else [])"

text \<open>\<open>main\<close> either returns an exit code or reaches the parse of the ligands and the
  batch scheduling loop (line 553) with the variables of the GPU branch set and the local
  \<open>ligand_names\<close> of line 527.\<close>

datatype outcome = Exit int | Batch_scheduler locals "string list"

text \<open>Lines 470--552 and the end of \<open>main\<close>, which returns 0.\<close>

definition dispatch :: "env \<Rightarrow> locals \<Rightarrow> event list \<Rightarrow> outcome \<times> event list" where
  "dispatch E L trace =
     (if vm_count L ''ligand'' then
        (case perform (throws E) (ligand_calls L) trace of
           (False, trace) \<Rightarrow> (Exit 1, trace)
         | (True, trace) \<Rightarrow> (Exit 0, trace))
      else if vm_count L ''gpu_batch'' \<or> vm_count L ''ligand_index'' then
        (if randomize_only L \<or> score_only L \<or> local_only L
         then (Exit 0, trace @ [Printf (''Not available under gpu_batch mode.'' @ [CHR 0x0A])])
         else
           (case perform (throws E) (gpu_calls L) trace of
              (False, trace) \<Rightarrow> (Exit 1, trace)
            | (True, trace) \<Rightarrow>
                (case probe (deviceCount E) (avail E) (max_gpu_memory L) of
                   (mm, v100) \<Rightarrow>
                     (Batch_scheduler
                        (L\<lparr>receptor_atom_numbers := int (m_receptor_atoms E),
                           max_memory := mm, use_v100 := v100,
                           ad4 := (sf_name L = ''ad4'')\<rparr>)
                        (gpu_batch_ligand_names L),
                      trace))))
      else (Exit 0, trace))"

text \<open>Lines 313--325 (\<open>--help\<close>, \<open>--help_advanced\<close>, \<open>--version\<close>), validation, set-up
  and dispatch.\<close>

definition main :: "env \<Rightarrow> locals \<Rightarrow> outcome \<times> event list" where
  "main E L =
     (if help_flag L then (Exit 0, [])
      else if help_advanced L then (Exit 0, [])
      else if version L then (Exit 0, [])
      else
        (case validate E L of
           Inl e \<Rightarrow> (Exit 1, [Cerr e])
         | Inr L \<Rightarrow>
             (case perform (throws E) (setup_calls L) [] of
                (False, trace) \<Rightarrow> (Exit 1, trace)
              | (True, trace) \<Rightarrow> dispatch E L trace)))"

subsection \<open>The parallel parse of the ligands, lines 553--563\<close>

text \<open>A parsed ligand, reduced to what the scheduler reads of it:
  \<open>get_atoms().size()\<close>.\<close>

datatype model = Model (get_atoms_size: nat)

type_synonym named_model = "string \<times> model"

text \<open>
  \<open>#pragma omp parallel for\<close> over \<open>ligand_names\<close>, each iteration appending its pair
  to \<open>all_ligands\<close> inside \<open>#pragma omp critical\<close>: the iterations still to finish are
  \<open>pending\<close>, any of them may be the next to append. \<open>parse\<close> is
  \<open>parse_ligand_pdbqt_from_file_no_failure\<close> with the atom typing of the run. The
  relation holds between \<open>ligand_names\<close>, the empty vector and every \<open>all_ligands\<close> the
  loop can end with.
\<close>

inductive omp_parallel_for ::
    "(string \<Rightarrow> model) \<Rightarrow> string list \<Rightarrow> named_model list \<Rightarrow> named_model list \<Rightarrow> bool"
  for parse :: "string \<Rightarrow> model" where
  finished: "omp_parallel_for parse [] all_ligands all_ligands"
| iteration: "i < length pending \<Longrightarrow>
     omp_parallel_for parse (take i pending @ drop (Suc i) pending)
       (all_ligands @ [(pending ! i, parse (pending ! i))]) result \<Longrightarrow>
     omp_parallel_for parse pending all_ligands result"

subsection \<open>The batch scheduling loop, lines 569--609\<close>

text \<open>
  The inner loop, lines 577--588. \<open>names\<close> is the local \<open>ligand_names\<close> of line 527,
  whose size bounds the loop; \<open>all_ligands\<close> has the same size after the parse. The
  guard calls the predictor first: where that call is undefined, so is the loop. This
  covers the overflow of \<open>all_atom2_numbers\<close> at lines 585--586, since the guard is
  evaluated after each addition and the predictor has no value at a sum that is not an
  \<open>int\<close>. Otherwise the result is \<open>batch_size\<close>, \<open>all_atom2_numbers\<close> and \<open>batch_ligands\<close>
  when the loop ends.
\<close>

function fill :: "locals \<Rightarrow> string list \<Rightarrow> named_model list \<Rightarrow> nat \<Rightarrow> nat \<Rightarrow> int \<Rightarrow> model list
    \<Rightarrow> (nat \<times> int \<times> model list) behaviour" where
  "fill L names all_ligands processed_ligands batch_size all_atom2_numbers batch_ligands =
     (case predict_peak_memory (int batch_size) (exhaustiveness L) all_atom2_numbers
             (use_v100 L) (ad4 L) of
        Undefined \<Rightarrow> Undefined
      | Defined predicted \<Rightarrow>
          if of_int predicted < max_memory L
             \<and> processed_ligands + batch_size < length names
          then
            (let batch_ligands =
                   batch_ligands @ [snd (all_ligands ! (processed_ligands + batch_size))];
                 next_atom_numbers =
                   int (get_atoms_size (last batch_ligands)) + receptor_atom_numbers L;
                 next_atom2_numbers = next_atom_numbers * next_atom_numbers
             in fill L names all_ligands processed_ligands (batch_size + 1)
                  (all_atom2_numbers + next_atom2_numbers) batch_ligands)
          else Defined (batch_size, all_atom2_numbers, batch_ligands))"
  by pat_completeness auto
termination
  by (relation "measure (\<lambda>(L, names, all_ligands, processed_ligands, batch_size, r).
        length names - (processed_ligands + batch_size))") auto

declare fill.simps [simp del]

text \<open>
  The outer loop, lines 570--609. A batch is its \<open>batch_id\<close>, its \<open>batch_ligand_names\<close>
  (lines 592--596) and its \<open>batch_ligands\<close>, as they are handed to
  \<open>set_ligand_from_object_gpu\<close>, \<open>global_search_gpu\<close> and \<open>write_poses_gpu\<close>; \<open>plan\<close> is
  the sequence of the batches submitted so far. The loop need not end: \<open>None\<close> is a run
  of the loop that never leaves it, \<open>Some Undefined\<close> one that meets undefined behaviour
  in the inner loop.
\<close>

type_synonym batch = "nat \<times> string list \<times> model list"

partial_function (option) batch_loop :: "locals \<Rightarrow> string list \<Rightarrow> named_model list \<Rightarrow> nat \<Rightarrow> nat
    \<Rightarrow> batch list \<Rightarrow> batch list behaviour option" where
  "batch_loop L names all_ligands processed_ligands batch_id plan =
     (if processed_ligands < length names then
        (case fill L names all_ligands processed_ligands 0 0 [] of
           Undefined \<Rightarrow> Some Undefined
         | Defined (batch_size, all_atom2_numbers, batch_ligands) \<Rightarrow>
             batch_loop L names all_ligands (processed_ligands + batch_size) (batch_id + 1)
               (plan @ [(batch_id + 1,
                         map (\<lambda>i. fst (all_ligands ! i))
                           [processed_ligands ..< processed_ligands + batch_size],
                         batch_ligands)]))
      else Some (Defined plan))"

declare batch_loop.simps [code]

text \<open>Notions used to state the theorems: the square of line 585 for one ligand, and
  the sum of the squares over \<open>all_ligands[a..b)\<close>.\<close>

definition atom2 :: "locals \<Rightarrow> model \<Rightarrow> int" where
  "atom2 L m = (int (get_atoms_size m) + receptor_atom_numbers L)
                 * (int (get_atoms_size m) + receptor_atom_numbers L)"

definition slice_cost :: "locals \<Rightarrow> named_model list \<Rightarrow> nat \<Rightarrow> nat \<Rightarrow> int" where
  "slice_cost L all_ligands a b = (\<Sum>i\<leftarrow>[a..<b]. atom2 L (snd (all_ligands ! i)))"

text \<open>The call of the predictor in the guard of line 577 has a value (\<open>predicts\<close>), and
  the value is below the budget (\<open>accepts\<close>, the first conjunct of the guard).\<close>

definition predicts :: "locals \<Rightarrow> nat \<Rightarrow> int \<Rightarrow> bool" where
  "predicts L batch_size all_atom2_numbers =
     (predict_peak_memory (int batch_size) (exhaustiveness L) all_atom2_numbers
        (use_v100 L) (ad4 L) \<noteq> Undefined)"

definition accepts :: "locals \<Rightarrow> nat \<Rightarrow> int \<Rightarrow> bool" where
  "accepts L batch_size all_atom2_numbers =
     (case predict_peak_memory (int batch_size) (exhaustiveness L) all_atom2_numbers
             (use_v100 L) (ad4 L) of
        Undefined \<Rightarrow> False
      | Defined predicted \<Rightarrow> of_int predicted < max_memory L)"


subsection \<open>Example inputs\<close>

text \<open>The variables as \<open>main\<close> initialises them (lines 126--191 and 535--537), and an
  environment with one device of 32 GiB free memory.\<close>

definition locals0 :: locals where
  "locals0 = \<lparr>vm = [], ligand_names = [], gpu_batch_ligand_names = [], ligand_index = '''',
     out_name = '''', out_dir = '''', sf_name = ''vina'', search_mode = '''',
     exhaustiveness = 8, max_step = 0, max_gpu_memory = 0,
     score_only = False, local_only = False, randomize_only = False, autobox = False,
     help_flag = False, help_advanced = False, version = False,
     receptor_atom_numbers = 0, max_memory = 32000, use_v100 = True, ad4 = False\<rparr>"

definition env0 :: env where
  "env0 = \<lparr>is_directory = (\<lambda>d. d = ''out''), default_output = (\<lambda>n. n @ ''_out.pdbqt''),
     index_file = (\<lambda>f. if f = ''index.txt'' then Some [''c.pdbqt'', ''d.pdbqt''] else None),
     throws = (\<lambda>c. False), deviceCount = 1, avail = 34359738368, m_receptor_atoms = 3000\<rparr>"

text \<open>A parser for the examples: ten atoms for each character of the file name.\<close>

definition parse0 :: "string \<Rightarrow> model" where
  "parse0 l = Model (10 * length l)"

text \<open>A GPU batch run of one ligand with \<open>--max_gpu_memory 16000\<close>, and the variables
  with which it reaches the batch scheduling loop in the environment \<open>env0\<close>.\<close>

definition gpu_run :: locals where
  "gpu_run = locals0\<lparr>vm := [''receptor'', ''gpu_batch'', ''dir'', ''max_gpu_memory''],
     out_dir := ''out'', gpu_batch_ligand_names := [''a.pdbqt''], max_gpu_memory := 16000\<rparr>"

definition gpu_run_locals :: locals where
  "gpu_run_locals = gpu_run\<lparr>receptor_atom_numbers := 3000, max_memory := 16000\<rparr>"

section \<open>Theorems\<close>

subsection \<open>Evaluation of the predictor\<close>

lemma normalize_numeral:
  "normalize (numeral k) m s =
     (if \<bar>m\<bar> < 2 ^ 52 then normalize (pred_numeral k) (2 * m) (s / 2)
      else if 2 ^ 53 \<le> \<bar>m\<bar> then normalize (pred_numeral k) (m / 2) (2 * s)
      else (m, s))"
  by (simp add: numeral_eq_Suc)

lemmas double_eval = to_double_def normalize_numeral round_half_even_def dmul_def dadd_def
  double_to_int_def int_range_def Let_def

lemma to_double_0 [simp]: "to_double 0 = 0"
  by (simp add: to_double_def)

lemma predict_peak_memory_spec:
  "predict_peak_memory b e c v a =
     (if int_range b \<and> int_range e \<and> int_range c
      then double_to_int (double_predicted (spec_coefficients v a) b e c) else Undefined)"
  by (simp add: predict_peak_memory_def spec_coefficients_def)

lemma predict_base_v100:
  "int_range e \<Longrightarrow> predict_peak_memory 0 e 0 True False = Defined 20017"
  by (simp add: predict_peak_memory_def dmul_def dadd_def)
     (simp add: double_eval)

lemma predict_base_v100_ad4:
  "int_range e \<Longrightarrow> predict_peak_memory 0 e 0 True True = Defined 20052"
  by (simp add: predict_peak_memory_def dmul_def dadd_def)
     (simp add: double_eval)


lemma double_to_int_near:
  "double_to_int x = Defined r \<Longrightarrow> \<bar>of_int r - x\<bar> < 1 \<and> int_range r"
  unfolding double_to_int_def Let_def by (auto split: if_splits; linarith)

lemma double_to_int_defined:
  "(double_to_int x \<noteq> Undefined) = (- (2 ^ 31) - 1 < x \<and> x < 2 ^ 31)"
proof -
  have "int_range (if 0 \<le> x then \<lfloor>x\<rfloor> else \<lceil>x\<rceil>) = (- (2 ^ 31) - 1 < x \<and> x < 2 ^ 31)"
  proof (cases "0 \<le> x")
    case True
    have "(\<lfloor>x\<rfloor> < 2 ^ 31) = (x < 2 ^ 31)"
      using floor_less_iff [of x "2 ^ 31"] by simp
    moreover have "- (2 ^ 31) \<le> \<lfloor>x\<rfloor>" using True by (simp add: le_floor_iff)
    ultimately show ?thesis using True by (simp add: int_range_def)
  next
    case False
    have "(- (2 ^ 31) \<le> \<lceil>x\<rceil>) = (- (2 ^ 31) - 1 < x)"
      using less_ceiling_iff [of "- (2 ^ 31) - 1" x] by simp
    moreover have "\<lceil>x\<rceil> < 2 ^ 31" using False by (simp add: ceiling_less_iff)
    ultimately show ?thesis using False by (simp add: int_range_def)
  qed
  then show ?thesis by (simp add: double_to_int_def Let_def)
qed

subsection \<open>The rounding error of the predictor\<close>

text \<open>
  The scaling of \<open>to_double\<close> keeps the value and brings every magnitude between
  \<open>2^-100\<close> and \<open>2^100\<close> into \<open>[2^52, 2^53)\<close>, so that rounding there changes the value
  by at most the fraction \<open>2^-53\<close> of it.
\<close>

lemma normalize_scale:
  "normalize n m s = (m', s') \<Longrightarrow> 0 < s \<Longrightarrow> m' * s' = m * s \<and> 0 < s'"
proof (induction n arbitrary: m s)
  case 0
  then show ?case by simp
next
  case (Suc n)
  show ?case
  proof (cases "\<bar>m\<bar> < 2 ^ 52")
    case True
    with Suc.prems have "normalize n (2 * m) (s / 2) = (m', s')" by simp
    from Suc.IH [OF this] Suc.prems(2) show ?thesis by simp
  next
    case False
    show ?thesis
    proof (cases "2 ^ 53 \<le> \<bar>m\<bar>")
      case True
      with False Suc.prems have "normalize n (m / 2) (2 * s) = (m', s')" by simp
      from Suc.IH [OF this] Suc.prems(2) show ?thesis by simp
    next
      case b: False
      with False Suc.prems show ?thesis by simp
    qed
  qed
qed

lemma normalize_range:
  "normalize n m s = (m', s') \<Longrightarrow> 2 ^ 52 \<le> \<bar>m\<bar> * 2 ^ n \<Longrightarrow> \<bar>m\<bar> < 2 ^ 53 * 2 ^ n \<Longrightarrow>
     2 ^ 52 \<le> \<bar>m'\<bar> \<and> \<bar>m'\<bar> < 2 ^ 53"
proof (induction n arbitrary: m s)
  case 0
  then show ?case by simp
next
  case (Suc n)
  show ?case
  proof (cases "\<bar>m\<bar> < 2 ^ 52")
    case True
    with Suc.prems have r: "normalize n (2 * m) (s / 2) = (m', s')" by simp
    have a: "(2::real) ^ 52 \<le> \<bar>2 * m\<bar> * 2 ^ n"
      using Suc.prems(2) by (simp add: abs_mult mult.assoc mult.left_commute)
    have "\<bar>2 * m\<bar> < (2::real) ^ 53 * 1" using True by (simp add: abs_mult)
    also have "\<dots> \<le> 2 ^ 53 * 2 ^ n" by (intro mult_left_mono) simp_all
    finally have b: "\<bar>2 * m\<bar> < (2::real) ^ 53 * 2 ^ n" .
    from Suc.IH [OF r a b] show ?thesis .
  next
    case False
    show ?thesis
    proof (cases "2 ^ 53 \<le> \<bar>m\<bar>")
      case True
      with False Suc.prems have r: "normalize n (m / 2) (2 * s) = (m', s')" by simp
      have "(2::real) ^ 52 * 1 \<le> \<bar>m / 2\<bar> * 2 ^ n"
        using True by (intro mult_mono) (simp_all add: abs_divide)
      then have a: "(2::real) ^ 52 \<le> \<bar>m / 2\<bar> * 2 ^ n" by simp
      have b: "\<bar>m / 2\<bar> < (2::real) ^ 53 * 2 ^ n"
        using Suc.prems(3) by (simp add: abs_divide)
      from Suc.IH [OF r a b] show ?thesis .
    next
      case b: False
      with False Suc.prems show ?thesis by simp
    qed
  qed
qed

lemma round_half_even_near: "\<bar>of_int (round_half_even x) - x\<bar> \<le> 1 / 2"
  unfolding round_half_even_def Let_def by (simp; linarith)

lemma to_double_error:
  assumes "1 / 2 ^ 100 \<le> \<bar>x\<bar>" and "\<bar>x\<bar> \<le> 2 ^ 100"
  shows "\<bar>to_double x - x\<bar> \<le> \<bar>x\<bar> / 2 ^ 53"
proof -
  have nz: "x \<noteq> 0" using assms(1) by auto
  obtain m s where n: "normalize 2200 x 1 = (m, s)"
    by (cases "normalize 2200 x 1") auto
  have p: "(2::real) ^ 2200 = 2 ^ 100 * 2 ^ 2100" by (simp flip: power_add)
  have "(2::real) ^ 52 \<le> 1 * 2 ^ 2100" by (simp add: power_increasing)
  also have "\<dots> = (1 / 2 ^ 100) * 2 ^ 2200" unfolding p by simp
  also have "\<dots> \<le> \<bar>x\<bar> * 2 ^ 2200" using assms(1) by (intro mult_right_mono) simp_all
  finally have lo: "(2::real) ^ 52 \<le> \<bar>x\<bar> * 2 ^ 2200" .
  have "\<bar>x\<bar> < 2 ^ 100 * 2" using assms(2) by simp
  also have "\<dots> \<le> (2::real) ^ 53 * 2 ^ 2200"
  proof -
    have "(2::real) ^ 101 \<le> 2 ^ 2253" by (simp add: power_increasing)
    then show ?thesis by (simp flip: power_add power_Suc2)
  qed
  finally have hi: "\<bar>x\<bar> < (2::real) ^ 53 * 2 ^ 2200" .
  from normalize_scale [OF n] have sc: "m * s = x" and sp: "0 < s" by simp_all
  from normalize_range [OF n lo hi] have mr: "2 ^ 52 \<le> \<bar>m\<bar>" by simp
  have td: "to_double x = of_int (round_half_even m) * s"
    using nz n by (simp add: to_double_def)
  have "to_double x - x = (of_int (round_half_even m) - m) * s"
    unfolding td using sc by (simp add: algebra_simps)
  then have "\<bar>to_double x - x\<bar> = \<bar>of_int (round_half_even m) - m\<bar> * s"
    using sp by (simp add: abs_mult)
  also have "\<dots> \<le> (1 / 2) * s"
    using round_half_even_near [of m] sp by (intro mult_right_mono) simp_all
  also have "\<dots> \<le> \<bar>x\<bar> / 2 ^ 53"
  proof -
    have "2 ^ 52 * s \<le> \<bar>m\<bar> * s" using mr sp by (intro mult_right_mono) simp_all
    also have "\<dots> = \<bar>x\<bar>" using sc sp by (simp flip: sc add: abs_mult)
    finally have "2 ^ 52 * s \<le> \<bar>x\<bar>" .
    then show ?thesis by simp
  qed
  finally show ?thesis .
qed

text \<open>
  For inputs that are not negative every value of the predictor is 0 or between \<open>2^-9\<close>
  and \<open>2^90\<close>, and the result has gone through at most six roundings: it is within the
  fraction \<open>7 * 2^-53\<close> of the exact affine combination.
\<close>

lemma mag_nonneg: "mag h x \<Longrightarrow> 0 \<le> x"
  unfolding mag_def by (auto intro: order_trans [of 0 "1 / 2 ^ 9"])

lemma mag_mono: "mag h x \<Longrightarrow> h \<le> h' \<Longrightarrow> mag h' x"
  unfolding mag_def
  by (auto intro: order_trans [OF _ power_increasing [of h h' "2::real"]])

lemma mag_times:
  assumes "mag h x" and "0 \<le> n" and "n < 2 ^ 31"
  shows "mag (h + 31) (x * of_int n)"
proof (cases "n = 0")
  case True
  then show ?thesis by (simp add: mag_def)
next
  case False
  then have n1: "1 \<le> n" using assms(2) by simp
  have x0: "0 \<le> x" using assms(1) by (rule mag_nonneg)
  have "x * of_int n \<le> 2 ^ h * 2 ^ 31"
  proof (intro mult_mono)
    show "x \<le> 2 ^ h" using assms(1) by (simp add: mag_def)
    have "real_of_int n \<le> real_of_int (2 ^ 31)" using assms(3) by (simp only: of_int_le_iff)
    then show "real_of_int n \<le> 2 ^ 31" by simp
  qed (use assms(2) in simp_all)
  then have up: "x * of_int n \<le> 2 ^ (h + 31)" by (simp add: power_add)
  show ?thesis
  proof (cases "x = 0")
    case True
    then show ?thesis by (simp add: mag_def)
  next
    case f: False
    then have "1 / 2 ^ 9 \<le> x" using assms(1) by (simp add: mag_def)
    also have "x = x * 1" by simp
    also have "\<dots> \<le> x * of_int n" using n1 x0 by (intro mult_left_mono) simp_all
    finally show ?thesis using up by (simp add: mag_def)
  qed
qed

lemma mag_plus:
  assumes "mag h x" and "mag h y"
  shows "mag (Suc h) (x + y)"
proof -
  have x0: "0 \<le> x" and y0: "0 \<le> y" using assms by (auto dest: mag_nonneg)
  have up: "x + y \<le> 2 ^ Suc h" using assms by (simp add: mag_def)
  have "x + y = 0 \<or> 1 / 2 ^ 9 \<le> x + y"
    using assms x0 y0 unfolding mag_def by (elim conjE disjE) simp_all
  with up show ?thesis by (simp add: mag_def)
qed

lemma approx_refl: "approx 0 x x"
  by (simp add: approx_def)

lemma approx_mono:
  assumes "approx k y x" and "0 \<le> x" and "k \<le> k'"
  shows "approx k' y x"
proof -
  have "(1 - 1 / 2 ^ 53 :: real) ^ k' \<le> (1 - 1 / 2 ^ 53) ^ k"
    using assms(3) by (intro power_decreasing) simp_all
  then have "x * (1 - 1 / 2 ^ 53) ^ k' \<le> x * (1 - 1 / 2 ^ 53) ^ k"
    using assms(2) by (rule mult_left_mono)
  moreover have "(1 + 1 / 2 ^ 53 :: real) ^ k \<le> (1 + 1 / 2 ^ 53) ^ k'"
    using assms(3) by (intro power_increasing) simp_all
  then have "x * (1 + 1 / 2 ^ 53) ^ k \<le> x * (1 + 1 / 2 ^ 53) ^ k'"
    using assms(2) by (rule mult_left_mono)
  ultimately show ?thesis using assms(1) unfolding approx_def by linarith
qed

lemma approx_times:
  assumes "approx k y x" and "0 \<le> n"
  shows "approx k (y * of_int n) (x * of_int n)"
proof -
  have n: "0 \<le> real_of_int n" using assms(2) by simp
  from assms(1) have "x * (1 - 1 / 2 ^ 53) ^ k * of_int n \<le> y * of_int n"
    and "y * of_int n \<le> x * (1 + 1 / 2 ^ 53) ^ k * of_int n"
    unfolding approx_def using n by (auto intro: mult_right_mono)
  then show ?thesis unfolding approx_def by (simp add: mult.assoc mult.left_commute mult.commute)
qed

lemma approx_plus:
  assumes "approx k y x" and "approx k y' x'"
  shows "approx k (y + y') (x + x')"
  using assms unfolding approx_def by (simp add: distrib_right add_mono)

lemma approx_to_double:
  assumes "approx k y x" and "mag h x" and "h \<le> 90" and "k \<le> 8"
  shows "approx (Suc k) (to_double y) x"
proof (cases "x = 0")
  case True
  then have "y = 0" using assms(1) by (simp add: approx_def)
  then show ?thesis using True by (simp add: approx_def to_double_def)
next
  case False
  then have lo: "1 / 2 ^ 9 \<le> x" and hi: "x \<le> 2 ^ 90"
    using assms(2) mag_mono [OF assms(2) assms(3)] by (simp_all add: mag_def)
  have x0: "0 \<le> x" using assms(2) by (rule mag_nonneg)
  have "(1 - 1 / 2 ^ 53 :: real) ^ 8 \<le> (1 - 1 / 2 ^ 53) ^ k"
    using assms(4) by (intro power_decreasing) simp_all
  moreover have "(1 / 2 :: real) \<le> (1 - 1 / 2 ^ 53) ^ 8"
    by (simp add: power_divide divide_simps)
  ultimately have a: "(1 / 2 :: real) \<le> (1 - 1 / 2 ^ 53) ^ k" by linarith
  have "(1 + 1 / 2 ^ 53 :: real) ^ k \<le> (1 + 1 / 2 ^ 53) ^ 8"
    using assms(4) by (intro power_increasing) simp_all
  moreover have "(1 + 1 / 2 ^ 53 :: real) ^ 8 \<le> 2"
    by (simp add: power_divide divide_simps)
  ultimately have b: "(1 + 1 / 2 ^ 53 :: real) ^ k \<le> 2" by linarith
  have "x * (1 / 2) \<le> x * (1 - 1 / 2 ^ 53) ^ k" using a x0 by (rule mult_left_mono)
  then have ylo: "x / 2 \<le> y" using assms(1) by (simp add: approx_def)
  have "x * (1 + 1 / 2 ^ 53) ^ k \<le> x * 2" using b x0 by (rule mult_left_mono)
  then have yhi: "y \<le> 2 * x" using assms(1) by (simp add: approx_def)
  have y0: "0 < y" using ylo lo by (smt (verit) divide_pos_pos zero_less_power)
  have "(1 / 2 ^ 100 :: real) \<le> 1 / 2 ^ 10" by (simp add: field_simps)
  also have "\<dots> \<le> x / 2" using lo by simp
  finally have l: "1 / 2 ^ 100 \<le> \<bar>y\<bar>" using ylo y0 by simp
  have "2 * x \<le> 2 * 2 ^ 90" using hi by simp
  also have "\<dots> \<le> (2::real) ^ 100" by simp
  finally have h: "\<bar>y\<bar> \<le> 2 ^ 100" using yhi y0 by simp
  from to_double_error [OF l h] y0
  have e: "\<bar>to_double y - y\<bar> \<le> y / 2 ^ 53" by simp
  have d: "y * (1 - 1 / 2 ^ 53) = y - y / 2 ^ 53" "y * (1 + 1 / 2 ^ 53) = y + y / 2 ^ 53"
    by (simp_all add: algebra_simps)
  have "to_double y - y \<le> y / 2 ^ 53" and "y - to_double y \<le> y / 2 ^ 53"
    using e by (simp_all only: abs_le_iff minus_diff_eq)
  then have "y * (1 - 1 / 2 ^ 53) \<le> to_double y" and "to_double y \<le> y * (1 + 1 / 2 ^ 53)"
    unfolding d by linarith+
  moreover have "x * (1 - 1 / 2 ^ 53) ^ Suc k \<le> y * (1 - 1 / 2 ^ 53)"
  proof -
    have "x * (1 - 1 / 2 ^ 53) ^ k * (1 - 1 / 2 ^ 53) \<le> y * (1 - 1 / 2 ^ 53)"
      using assms(1) unfolding approx_def by (intro mult_right_mono) simp_all
    then show ?thesis by (simp add: mult.assoc mult.commute)
  qed
  moreover have "y * (1 + 1 / 2 ^ 53) \<le> x * (1 + 1 / 2 ^ 53) ^ Suc k"
  proof -
    have "y * (1 + 1 / 2 ^ 53) \<le> x * (1 + 1 / 2 ^ 53) ^ k * (1 + 1 / 2 ^ 53)"
      using assms(1) unfolding approx_def by (intro mult_right_mono) simp_all
    then show ?thesis by (simp add: mult.assoc mult.commute)
  qed
  ultimately show ?thesis unfolding approx_def by linarith
qed

lemma approx_6_error:
  assumes "approx 6 y x" and "0 \<le> x"
  shows "\<bar>y - x\<bar> \<le> x * (7 / 2 ^ 53)"
proof -
  define w where "w = x * (7 / 2 ^ 53)"
  have lo: "x * (1 - 1 / 2 ^ 53) ^ 6 \<le> y" and hi: "y \<le> x * (1 + 1 / 2 ^ 53) ^ 6"
    using assms(1) by (simp_all add: approx_def)
  have "(1 + 1 / 2 ^ 53 :: real) ^ 6 \<le> 1 + 7 / 2 ^ 53"
    by (simp add: power_divide divide_simps)
  then have "x * (1 + 1 / 2 ^ 53) ^ 6 \<le> x * (1 + 7 / 2 ^ 53)"
    using assms(2) by (rule mult_left_mono)
  also have "\<dots> = x + w" unfolding w_def by (simp add: algebra_simps)
  finally have 1: "y \<le> x + w" using hi by (rule order_trans [rotated])
  have "(1 - 7 / 2 ^ 53 :: real) \<le> (1 - 1 / 2 ^ 53) ^ 6"
    by (simp add: power_divide divide_simps)
  then have "x * (1 - 7 / 2 ^ 53) \<le> x * (1 - 1 / 2 ^ 53) ^ 6"
    using assms(2) by (rule mult_left_mono)
  moreover have "x * (1 - 7 / 2 ^ 53) = x - w" unfolding w_def by (simp add: algebra_simps)
  ultimately have 2: "x - w \<le> y" using lo by simp
  have "\<bar>y - x\<bar> \<le> w" using 1 2 by (simp add: abs_le_iff)
  then show ?thesis unfolding w_def .
qed

lemma approx_round:
  assumes "approx k y x" and "mag h x" and "h \<le> 90" and "k < k'" and "k' \<le> 9"
  shows "approx k' (to_double y) x"
proof -
  have "k \<le> 8" using assms(4,5) by simp
  from approx_to_double [OF assms(1,2,3) this]
  have s: "approx (Suc k) (to_double y) x" .
  have "Suc k \<le> k'" using assms(4) by simp
  from approx_mono [OF s mag_nonneg [OF assms(2)] this] show ?thesis .
qed

lemma double_predicted_approx:
  assumes c: "1 / 2 ^ 9 \<le> c0" "c0 \<le> 2 ^ 15" "1 / 2 ^ 9 \<le> c1" "c1 \<le> 2 ^ 15"
      "1 / 2 ^ 9 \<le> c2" "c2 \<le> 2 ^ 15" "1 / 2 ^ 9 \<le> c3" "c3 \<le> 2 ^ 15"
    and b: "0 \<le> b" "b < 2 ^ 31" and e: "0 \<le> e" "e < 2 ^ 31" and a: "0 \<le> a" "a < 2 ^ 31"
  shows "approx 6 (double_predicted (c0, c1, c2, c3) b e a)
           (spec_predicted (c0, c1, c2, c3) b e a)
         \<and> 0 \<le> spec_predicted (c0, c1, c2, c3) b e a"
proof -
  have m0: "mag 15 c0" and m1: "mag 15 c1" and m2: "mag 15 c2" and m3: "mag 15 c3"
    using c by (simp_all add: mag_def)
  have C0: "approx 1 (to_double c0) c0" and C1: "approx 1 (to_double c1) c1"
    and C2: "approx 1 (to_double c2) c2" and C3: "approx 5 (to_double c3) c3"
    using m0 m1 m2 m3 by (auto intro: approx_round [OF approx_refl])
  have mA: "mag 46 (c0 * of_int b)" using mag_times [OF m0 b] by simp
  have A: "approx 3 (dmul (to_double c0) (of_int b)) (c0 * of_int b)"
    unfolding dmul_def by (rule approx_round [OF approx_times [OF C0 b(1)] mA]) simp_all
  have mB1: "mag 46 (c1 * of_int e)" using mag_times [OF m1 e] by simp
  have B1: "approx 2 (dmul (to_double c1) (of_int e)) (c1 * of_int e)"
    unfolding dmul_def by (rule approx_round [OF approx_times [OF C1 e(1)] mB1]) simp_all
  have mB: "mag 77 (c1 * of_int e * of_int b)" using mag_times [OF mB1 b] by simp
  have B: "approx 3 (dmul (dmul (to_double c1) (of_int e)) (of_int b)) (c1 * of_int e * of_int b)"
    unfolding dmul_def [of "dmul (to_double c1) (of_int e)"]
    by (rule approx_round [OF approx_times [OF B1 b(1)] mB]) simp_all
  have mS1: "mag 78 (c0 * of_int b + c1 * of_int e * of_int b)"
    using mag_plus [OF mag_mono [OF mA, of 77] mB] by simp
  have S1: "approx 4 (dadd (dmul (to_double c0) (of_int b))
                          (dmul (dmul (to_double c1) (of_int e)) (of_int b)))
              (c0 * of_int b + c1 * of_int e * of_int b)"
    unfolding dadd_def by (rule approx_round [OF approx_plus [OF A B] mS1]) simp_all
  have mD: "mag 46 (c2 * of_int a)" using mag_times [OF m2 a] by simp
  have D: "approx 4 (dmul (to_double c2) (of_int a)) (c2 * of_int a)"
    unfolding dmul_def by (rule approx_round [OF approx_times [OF C2 a(1)] mD]) simp_all
  have mS2: "mag 79 (c0 * of_int b + c1 * of_int e * of_int b + c2 * of_int a)"
    using mag_plus [OF mS1 mag_mono [OF mD, of 78]] by simp
  have S2: "approx 5 (dadd (dadd (dmul (to_double c0) (of_int b))
                                (dmul (dmul (to_double c1) (of_int e)) (of_int b)))
                          (dmul (to_double c2) (of_int a)))
              (c0 * of_int b + c1 * of_int e * of_int b + c2 * of_int a)"
    unfolding dadd_def [of "dadd _ _"]
    by (rule approx_round [OF approx_plus [OF S1 D] mS2]) simp_all
  have mS3: "mag 80 (c0 * of_int b + c1 * of_int e * of_int b + c2 * of_int a + c3)"
    using mag_plus [OF mS2 mag_mono [OF m3, of 79]] by simp
  have S3: "approx 6 (dadd (dadd (dadd (dmul (to_double c0) (of_int b))
                                      (dmul (dmul (to_double c1) (of_int e)) (of_int b)))
                                (dmul (to_double c2) (of_int a)))
                          (to_double c3))
              (c0 * of_int b + c1 * of_int e * of_int b + c2 * of_int a + c3)"
    unfolding dadd_def [of "dadd (dadd _ _) _"]
    by (rule approx_round [OF approx_plus [OF S2 C3] mS3]) simp_all
  show ?thesis using S3 mag_nonneg [OF mS3] by simp
qed

lemma spec_coefficients_bounds:
  "case spec_coefficients v d of (c0, c1, c2, c3) \<Rightarrow>
     1 / 2 ^ 9 \<le> c0 \<and> c0 \<le> 2 ^ 15 \<and> 1 / 2 ^ 9 \<le> c1 \<and> c1 \<le> 2 ^ 15
     \<and> 1 / 2 ^ 9 \<le> c2 \<and> c2 \<le> 2 ^ 15 \<and> 1 / 2 ^ 9 \<le> c3 \<and> c3 \<le> 2 ^ 15"
  by (simp add: spec_coefficients_def)

lemma double_predicted_near_affine:
  assumes "0 \<le> b" "0 \<le> e" "0 \<le> a" "int_range b" "int_range e" "int_range a"
  shows "0 \<le> spec_predicted (spec_coefficients v d) b e a
    \<and> \<bar>double_predicted (spec_coefficients v d) b e a - spec_predicted (spec_coefficients v d) b e a\<bar>
      \<le> spec_predicted (spec_coefficients v d) b e a * (7 / 2 ^ 53)"
proof -
  obtain c0 c1 c2 c3 where s: "spec_coefficients v d = (c0, c1, c2, c3)"
    by (cases "spec_coefficients v d") auto
  have c: "1 / 2 ^ 9 \<le> c0" "c0 \<le> 2 ^ 15" "1 / 2 ^ 9 \<le> c1" "c1 \<le> 2 ^ 15"
      "1 / 2 ^ 9 \<le> c2" "c2 \<le> 2 ^ 15" "1 / 2 ^ 9 \<le> c3" "c3 \<le> 2 ^ 15"
    using spec_coefficients_bounds [of v d] unfolding s by simp_all
  have r: "b < 2 ^ 31" "e < 2 ^ 31" "a < 2 ^ 31" using assms(4,5,6) by (simp_all add: int_range_def)
  from double_predicted_approx [OF c assms(1) r(1) assms(2) r(2) assms(3) r(3)]
  show ?thesis unfolding s using approx_6_error by blast
qed

lemma predict_peak_memory_near_affine:
  assumes "0 \<le> b" "0 \<le> e" "0 \<le> a" "int_range b" "int_range e" "int_range a"
    and "spec_predicted (spec_coefficients v d) b e a \<le> 2 ^ 31 - 1"
  shows "\<exists>r. predict_peak_memory b e a v d = Defined r
           \<and> \<bar>of_int r - spec_predicted (spec_coefficients v d) b e a\<bar> < 1 + 1 / 2 ^ 19"
proof -
  define E where "E = spec_predicted (spec_coefficients v d) b e a"
  define F where "F = double_predicted (spec_coefficients v d) b e a"
  define w where "w = E * (7 / 2 ^ 53)"
  define t where "t = (1 / 2 ^ 19 :: real)"
  have E0: "0 \<le> E" and FE: "\<bar>F - E\<bar> \<le> w"
    using double_predicted_near_affine [OF assms(1-6), of v d] unfolding E_def F_def w_def
    by simp_all
  define h where "h = (2 ^ 31 :: real)"
  have h0: "0 < h" unfolding h_def by simp
  have Eh: "E \<le> h - 1" using assms(7) unfolding E_def h_def .
  have "E \<le> h" using Eh by simp
  then have "w \<le> h * (7 / 2 ^ 53)"
    unfolding w_def by (intro mult_right_mono) simp_all
  also have "\<dots> < t" unfolding t_def h_def by simp
  finally have wt: "w < t" .
  have t1: "t < 1" "0 < t" unfolding t_def by simp_all
  have lo: "E - t < F" and hi: "F < E + t" using FE wt by (simp_all add: abs_le_iff)
  have "- h - 1 < F" using lo E0 t1 h0 by linarith
  moreover have "F < h" using hi Eh t1 by linarith
  ultimately have "double_to_int F \<noteq> Undefined"
    unfolding h_def by (simp add: double_to_int_defined)
  then obtain r where r: "double_to_int F = Defined r" by (cases "double_to_int F") auto
  have p: "predict_peak_memory b e a v d = Defined r"
    using r assms(4,5,6) unfolding F_def by (simp add: predict_peak_memory_spec)
  have "\<bar>of_int r - F\<bar> < 1" using double_to_int_near [OF r] by simp
  then have "\<bar>of_int r - E\<bar> < 1 + t" using lo hi by (simp add: abs_less_iff)
  then show ?thesis using p unfolding E_def t_def by blast
qed

subsection \<open>C4: the predictor is the affine combination in double precision, as an int\<close>

text \<open>
  C4 as stated: for all inputs the predictor returns the affine combination
  \<open>c0*batch_size + c1*exhaustiveness*batch_size + c2*cost + c3\<close>, and it always returns a
  number. On the low-memory class at batch size 371, exhaustiveness 8 and cost 695669
  the combination is the integer 14078; the \<open>double\<close> that the code computes is just below
  it and the function returns 14077. At batch size and exhaustiveness 1000000 on the
  high-memory class the \<open>double\<close> is above 3.8e9, its conversion to \<open>int\<close> is undefined
  and no number is returned.
\<close>

theorem C4_counterexample:
  "int_range 371 \<and> int_range 8 \<and> int_range 695669 \<and> int_range 1000000
   \<and> spec_predicted (spec_coefficients False False) 371 8 695669 = 14078
   \<and> predict_peak_memory 371 8 695669 False False = Defined 14077
   \<and> predict_peak_memory 1000000 1000000 0 True False = Undefined"
  by (simp add: spec_coefficients_def predict_peak_memory_def double_eval)

text \<open>
  C4, amended: for all \<open>int\<close> inputs the predictor computes the affine combination in
  double precision (each constant, product and sum rounded, in the order written), with
  the coefficients selected by the device-class flag and, for the high-memory class only,
  by the scoring-function family, and returns it converted to \<open>int\<close>. It has no error
  path; it returns a number exactly when the \<open>double\<close> is above \<open>-2^31 - 1\<close> and below
  \<open>2^31\<close>, and that number is the \<open>double\<close> truncated towards zero, less than 1 away
  from it. For inputs that are not negative the \<open>double\<close> is within the fraction
  \<open>7 * 2^-53\<close> of the exact affine combination; if moreover the exact combination is at
  most \<open>2^31 - 1\<close>, the predictor returns a number, less than \<open>1 + 2^-19\<close> away from the
  exact combination.
\<close>

theorem C4_predict_peak_memory_double_affine:
  assumes "int_range bs" and "int_range exh" and "int_range cost"
  shows "predict_peak_memory bs exh cost high_memory is_ad4
           = double_to_int (double_predicted (spec_coefficients high_memory is_ad4) bs exh cost)
   \<and> (predict_peak_memory bs exh cost high_memory is_ad4 \<noteq> Undefined)
       = (- (2 ^ 31) - 1 < double_predicted (spec_coefficients high_memory is_ad4) bs exh cost
          \<and> double_predicted (spec_coefficients high_memory is_ad4) bs exh cost < 2 ^ 31)
   \<and> (\<forall>r. predict_peak_memory bs exh cost high_memory is_ad4 = Defined r \<longrightarrow>
          int_range r
          \<and> \<bar>of_int r - double_predicted (spec_coefficients high_memory is_ad4) bs exh cost\<bar> < 1)
   \<and> (0 \<le> bs \<and> 0 \<le> exh \<and> 0 \<le> cost \<longrightarrow>
          \<bar>double_predicted (spec_coefficients high_memory is_ad4) bs exh cost
            - spec_predicted (spec_coefficients high_memory is_ad4) bs exh cost\<bar>
          \<le> spec_predicted (spec_coefficients high_memory is_ad4) bs exh cost * (7 / 2 ^ 53))
   \<and> (0 \<le> bs \<and> 0 \<le> exh \<and> 0 \<le> cost
        \<and> spec_predicted (spec_coefficients high_memory is_ad4) bs exh cost \<le> 2 ^ 31 - 1 \<longrightarrow>
          (\<exists>r. predict_peak_memory bs exh cost high_memory is_ad4 = Defined r
             \<and> \<bar>of_int r - spec_predicted (spec_coefficients high_memory is_ad4) bs exh cost\<bar>
                 < 1 + 1 / 2 ^ 19))
   \<and> spec_coefficients False True = spec_coefficients False False
   \<and> spec_coefficients True True \<noteq> spec_coefficients True False
   \<and> spec_coefficients True is_ad4 \<noteq> spec_coefficients False is_ad4"
proof -
  have 1: "predict_peak_memory bs exh cost high_memory is_ad4
     = double_to_int (double_predicted (spec_coefficients high_memory is_ad4) bs exh cost)"
    using assms by (simp add: predict_peak_memory_spec)
  have 2: "(predict_peak_memory bs exh cost high_memory is_ad4 \<noteq> Undefined)
       = (- (2 ^ 31) - 1 < double_predicted (spec_coefficients high_memory is_ad4) bs exh cost
          \<and> double_predicted (spec_coefficients high_memory is_ad4) bs exh cost < 2 ^ 31)"
    unfolding 1 by (rule double_to_int_defined)
  have 3: "\<forall>r. predict_peak_memory bs exh cost high_memory is_ad4 = Defined r \<longrightarrow>
          int_range r
          \<and> \<bar>of_int r - double_predicted (spec_coefficients high_memory is_ad4) bs exh cost\<bar> < 1"
    unfolding 1 using double_to_int_near by blast
  have 4: "0 \<le> bs \<and> 0 \<le> exh \<and> 0 \<le> cost \<longrightarrow>
          \<bar>double_predicted (spec_coefficients high_memory is_ad4) bs exh cost
            - spec_predicted (spec_coefficients high_memory is_ad4) bs exh cost\<bar>
          \<le> spec_predicted (spec_coefficients high_memory is_ad4) bs exh cost * (7 / 2 ^ 53)"
    using double_predicted_near_affine [OF _ _ _ assms] by blast
  have 5: "0 \<le> bs \<and> 0 \<le> exh \<and> 0 \<le> cost
        \<and> spec_predicted (spec_coefficients high_memory is_ad4) bs exh cost \<le> 2 ^ 31 - 1 \<longrightarrow>
          (\<exists>r. predict_peak_memory bs exh cost high_memory is_ad4 = Defined r
             \<and> \<bar>of_int r - spec_predicted (spec_coefficients high_memory is_ad4) bs exh cost\<bar>
                 < 1 + 1 / 2 ^ 19)"
    using predict_peak_memory_near_affine [OF _ _ _ assms] by blast
  have "spec_coefficients False True = spec_coefficients False False"
    by (simp add: spec_coefficients_def)
  moreover have "spec_coefficients True True \<noteq> spec_coefficients True False"
    by (simp add: spec_coefficients_def)
  moreover have "spec_coefficients True is_ad4 \<noteq> spec_coefficients False is_ad4"
    by (simp add: spec_coefficients_def)
  ultimately show ?thesis using 1 2 3 4 5 by blast
qed

theorem C4_predict_peak_memory_double_affine_witness:
  "int_range 371 \<and> int_range 8 \<and> int_range 695669
   \<and> spec_predicted (spec_coefficients False False) 371 8 695669 = 14078
   \<and> predict_peak_memory 371 8 695669 False False = Defined 14077
   \<and> predict_peak_memory 371 8 695669 False False
       = double_to_int (double_predicted (spec_coefficients False False) 371 8 695669)
   \<and> \<bar>14077 - double_predicted (spec_coefficients False False) 371 8 695669\<bar> < 1
   \<and> \<bar>double_predicted (spec_coefficients False False) 371 8 695669 - 14078\<bar>
       \<le> 14078 * (7 / 2 ^ 53)
   \<and> \<bar>real_of_int 14077 - 14078\<bar> < 1 + 1 / 2 ^ 19"
proof -
  have r: "int_range 371" "int_range 8" "int_range 695669"
    by (simp_all add: int_range_def)
  have v: "predict_peak_memory 371 8 695669 False False = Defined 14077"
    by (simp add: predict_peak_memory_def double_eval)
  have s: "spec_predicted (spec_coefficients False False) 371 8 695669 = 14078"
    by (simp add: spec_coefficients_def)
  from C4_predict_peak_memory_double_affine [OF r, of False False] v r s show ?thesis
    by simp
qed

subsection \<open>C5: the device memory probe\<close>

text \<open>
  C5 as stated: without a device the budget is a fixed conservative low-memory constant,
  and the ceiling of \<open>--max_gpu_memory\<close> applies when a device is present. In the code
  the value without a device is 32000 MiB, which the probe itself puts in the
  high-memory class (\<open>use_v100\<close> stays true, the low-memory class being below 17000 MiB),
  and the ceiling applies without a device as well, so the budget is not one fixed value
  there: with no device, no ceiling gives 32000 and a ceiling of 1000 gives 1000.
\<close>

theorem C5_counterexample:
  "probe 0 0 0 = (32000, True) \<and> probe 0 0 1000 = (1000, True)"
  by (simp add: probe_def)

text \<open>
  C5, amended: the probe never fails. Before the ceiling, the budget is the fixed constant
  32000 MiB when no device is present (a value of the high-memory class) and the available
  memory in whole MiB times 0.95 when one is; in both cases the budget is then the
  ceiling of \<open>--max_gpu_memory\<close> if that ceiling is positive and smaller.
\<close>

theorem C5_probe_budget:
  "fst (probe dc av cap)
     = (if 0 < cap
        then min (of_int cap)
                 (if 0 < dc then of_nat (av div 1024 div 1024) * 0.95 else 32000)
        else (if 0 < dc then of_nat (av div 1024 div 1024) * 0.95 else 32000))
   \<and> snd (probe dc av cap)
     = (if 0 < dc then 17000 \<le> real (av div 1024 div 1024) * 0.95 else True)"
  by (simp add: probe_def Let_def min_def not_less)

subsection \<open>C10: the device class is fixed before the ceiling is applied\<close>

text \<open>
  C10: the flag \<open>use_v100\<close> depends on the device count and the available memory only,
  never on \<open>--max_gpu_memory\<close>; on a device of the high-memory class (or with no
  device) a ceiling between 0 and 17000 MiB becomes the budget, which is lower than the
  budget without ceiling, and the flag stays on the high-memory coefficient set.
\<close>

theorem C10_class_before_ceiling:
  "snd (probe dc av cap) = snd (probe dc av 0)
   \<and> (0 < cap \<and> cap < 17000 \<and> snd (probe dc av 0)
        \<longrightarrow> fst (probe dc av cap) = of_int cap
          \<and> fst (probe dc av cap) < fst (probe dc av 0)
          \<and> snd (probe dc av cap))"
  by (auto simp add: probe_def Let_def split: if_splits)

theorem C10_class_before_ceiling_witness:
  "snd (probe 1 34359738368 8000) = snd (probe 1 34359738368 0)
   \<and> 0 < (8000::int) \<and> (8000::int) < 17000 \<and> snd (probe 1 34359738368 0)
   \<and> fst (probe 1 34359738368 8000) = 8000
   \<and> fst (probe 1 34359738368 8000) < fst (probe 1 34359738368 0)
   \<and> snd (probe 1 34359738368 8000)"
proof -
  have h: "0 < (8000::int) \<and> (8000::int) < 17000 \<and> snd (probe 1 34359738368 0)"
    by (simp add: probe_def)
  show ?thesis
    using h C10_class_before_ceiling [of 1 34359738368 8000] by simp
qed

subsection \<open>The inner loop\<close>

lemma accepts_predicts: "accepts L bs c \<Longrightarrow> predicts L bs c"
  by (auto simp add: accepts_def predicts_def split: behaviour.splits)

lemma accepts_iff:
  "accepts L bs c = (\<exists>v. predict_peak_memory (int bs) (exhaustiveness L) c (use_v100 L) (ad4 L)
                          = Defined v \<and> of_int v < max_memory L)"
  by (auto simp add: accepts_def split: behaviour.splits)


lemma slice_cost_empty [simp]: "slice_cost L al a a = 0"
  by (simp add: slice_cost_def)

lemma slice_cost_first:
  "a < b \<Longrightarrow> slice_cost L al a b = atom2 L (snd (al ! a)) + slice_cost L al (Suc a) b"
  by (simp add: slice_cost_def upt_conv_Cons)

lemma fill_unfold:
  "fill L names al p bs c bl =
     (if \<not> predicts L bs c then Undefined
      else if accepts L bs c \<and> p + bs < length names
      then fill L names al p (Suc bs) (c + atom2 L (snd (al ! (p + bs))))
             (bl @ [snd (al ! (p + bs))])
      else Defined (bs, c, bl))"
  by (subst fill.simps)
     (simp add: accepts_def predicts_def atom2_def Let_def split: behaviour.splits)

lemma fill_result:
  "fill L names al p bs c bl = Defined (bs', c', bl') \<Longrightarrow>
     bs \<le> bs' \<and> (p + bs \<le> length names \<longrightarrow> p + bs' \<le> length names)
     \<and> bl' = bl @ map (\<lambda>i. snd (al ! i)) [p + bs ..< p + bs']
     \<and> c' = c + slice_cost L al (p + bs) (p + bs')
     \<and> (\<forall>j. bs \<le> j \<and> j < bs' \<longrightarrow> accepts L j (c + slice_cost L al (p + bs) (p + j)))
     \<and> predicts L bs' c'
     \<and> \<not> (accepts L bs' c' \<and> p + bs' < length names)"
proof (induction "length names - (p + bs)" arbitrary: bs c bl rule: less_induct)
  case less
  have pr: "predicts L bs c"
    using less.prems by (subst (asm) fill_unfold) (simp split: if_splits)
  show ?case
  proof (cases "accepts L bs c \<and> p + bs < length names")
    case False
    with less.prems pr show ?thesis
      by (subst (asm) fill_unfold) auto
  next
    case True
    with less.prems pr
    have r: "fill L names al p (Suc bs) (c + atom2 L (snd (al ! (p + bs))))
               (bl @ [snd (al ! (p + bs))]) = Defined (bs', c', bl')"
      by (subst (asm) fill_unfold) simp
    have m: "length names - (p + Suc bs) < length names - (p + bs)"
      using True by linarith
    have IH: "Suc bs \<le> bs' \<and> (p + Suc bs \<le> length names \<longrightarrow> p + bs' \<le> length names)
     \<and> bl' = (bl @ [snd (al ! (p + bs))]) @ map (\<lambda>i. snd (al ! i)) [p + Suc bs ..< p + bs']
     \<and> c' = (c + atom2 L (snd (al ! (p + bs)))) + slice_cost L al (p + Suc bs) (p + bs')
     \<and> (\<forall>j. Suc bs \<le> j \<and> j < bs' \<longrightarrow>
           accepts L j ((c + atom2 L (snd (al ! (p + bs))))
                        + slice_cost L al (p + Suc bs) (p + j)))
     \<and> predicts L bs' c'
     \<and> \<not> (accepts L bs' c' \<and> p + bs' < length names)"
      by (rule less.hyps [OF m r])
    have lt: "p + bs < p + bs'" using IH by simp
    have a: "[p + bs ..< p + bs'] = (p + bs) # [p + Suc bs ..< p + bs']"
      using lt by (simp add: upt_conv_Cons)
    have b: "slice_cost L al (p + bs) (p + bs')
        = atom2 L (snd (al ! (p + bs))) + slice_cost L al (p + Suc bs) (p + bs')"
      using lt by (simp add: slice_cost_first)
    have c: "\<forall>j. bs \<le> j \<and> j < bs' \<longrightarrow> accepts L j (c + slice_cost L al (p + bs) (p + j))"
    proof (intro allI impI)
      fix j assume j: "bs \<le> j \<and> j < bs'"
      show "accepts L j (c + slice_cost L al (p + bs) (p + j))"
      proof (cases "j = bs")
        case True
        then show ?thesis using \<open>accepts L bs c \<and> p + bs < length names\<close> by simp
      next
        case False
        then have "Suc bs \<le> j \<and> j < bs'" using j by simp
        then have "accepts L j ((c + atom2 L (snd (al ! (p + bs))))
                                + slice_cost L al (p + Suc bs) (p + j))"
          using IH by blast
        moreover have "slice_cost L al (p + bs) (p + j)
            = atom2 L (snd (al ! (p + bs))) + slice_cost L al (p + Suc bs) (p + j)"
          using False j by (simp add: slice_cost_first)
        ultimately show ?thesis by (simp add: add.assoc)
      qed
    qed
    show ?thesis using IH a b c True by (auto simp add: add.assoc)
  qed
qed




lemma fill_stall:
  assumes "predicts L 0 0" and "\<not> accepts L 0 0"
  shows "fill L names al p 0 0 [] = Defined (0, 0, [])"
  using assms by (subst fill_unfold) simp

subsection \<open>The outer loop\<close>

lemma batch_loop_step:
  assumes "p < length names" and "fill L names al p 0 0 [] = Defined (bs, c, bl)"
  shows "batch_loop L names al p bid plan =
     batch_loop L names al (p + bs) (bid + 1)
       (plan @ [(bid + 1, map (\<lambda>i. fst (al ! i)) [p ..< p + bs], bl)])"
  using assms by (subst batch_loop.simps) simp

lemma batch_loop_done:
  "\<not> p < length names \<Longrightarrow> batch_loop L names al p bid plan = Some (Defined plan)"
  by (subst batch_loop.simps) simp


lemma batch_loop_stalls:
  assumes "predicts L 0 0" and "\<not> accepts L 0 0" and "p < length names"
  shows "batch_loop L names al p bid plan = None"
proof -
  have "\<not> predicts L 0 0 \<or> accepts L 0 0 \<or> \<not> p < length names"
    if "batch_loop L names al p bid plan = Some r" for r
  proof (rule batch_loop.raw_induct
      [OF _ that, where P = "\<lambda>L names al p bid plan r.
          \<not> predicts L 0 0 \<or> accepts L 0 0 \<or> \<not> p < length names"],
      goal_cases)
    case (1 f L names al p bid plan r)
    show ?case
    proof (rule ccontr)
      assume "\<not> (\<not> predicts L 0 0 \<or> accepts L 0 0 \<or> \<not> p < length names)"
      then have pr: "predicts L 0 0" and st: "\<not> accepts L 0 0" and lt: "p < length names"
        by simp_all
      from 1(2) [unfolded fill_stall [OF pr st]] lt
      have "f L names al p (bid + 1) (plan @ [(bid + 1, [], [])]) = Some r"
        by simp
      from 1(1) [OF this] pr st lt show False by simp
    qed
  qed
  with assms show ?thesis by (cases "batch_loop L names al p bid plan") auto
qed

lemma fill_all:
  assumes "\<forall>j. bs \<le> j \<and> p + j < length names \<longrightarrow> accepts L j (c + slice_cost L al (p + bs) (p + j))"
    and "predicts L (length names - p) (c + slice_cost L al (p + bs) (length names))"
    and "p + bs \<le> length names"
  shows "fill L names al p bs c bl =
           Defined (length names - p, c + slice_cost L al (p + bs) (length names),
                    bl @ map (\<lambda>i. snd (al ! i)) [p + bs ..< length names])"
  using assms
proof (induction "length names - (p + bs)" arbitrary: bs c bl)
  case 0
  then have e: "p + bs = length names" by simp
  then have b: "bs = length names - p" by simp
  have "predicts L bs c" using "0.prems"(2) e b by simp
  then have "fill L names al p bs c bl = Defined (bs, c, bl)"
    using e by (subst fill_unfold) simp
  then show ?case using e b by simp
next
  case (Suc n)
  then have lt: "p + bs < length names" by simp
  have acc: "accepts L bs c" using Suc.prems(1) lt by force
  have step: "fill L names al p bs c bl =
     fill L names al p (Suc bs) (c + atom2 L (snd (al ! (p + bs)))) (bl @ [snd (al ! (p + bs))])"
    using acc accepts_predicts [OF acc] lt by (subst fill_unfold) simp
  have n: "n = length names - (p + Suc bs)" using Suc.hyps(2) by simp
  have b: "slice_cost L al (p + bs) (length names)
      = atom2 L (snd (al ! (p + bs))) + slice_cost L al (p + Suc bs) (length names)"
    using lt by (simp add: slice_cost_first)
  have pre: "\<forall>j. Suc bs \<le> j \<and> p + j < length names \<longrightarrow>
      accepts L j (c + atom2 L (snd (al ! (p + bs))) + slice_cost L al (p + Suc bs) (p + j))"
  proof (intro allI impI)
    fix j assume j: "Suc bs \<le> j \<and> p + j < length names"
    then have "accepts L j (c + slice_cost L al (p + bs) (p + j))"
      using Suc.prems(1) by simp
    moreover have "slice_cost L al (p + bs) (p + j)
        = atom2 L (snd (al ! (p + bs))) + slice_cost L al (p + Suc bs) (p + j)"
      using j by (simp add: slice_cost_first)
    ultimately show "accepts L j (c + atom2 L (snd (al ! (p + bs)))
        + slice_cost L al (p + Suc bs) (p + j))"
      by (simp add: add.assoc)
  qed
  have pr: "predicts L (length names - p)
      (c + atom2 L (snd (al ! (p + bs))) + slice_cost L al (p + Suc bs) (length names))"
    using Suc.prems(2) b by (simp add: add.assoc)
  have le: "p + Suc bs \<le> length names" using lt by simp
  have a: "[p + bs ..< length names] = (p + bs) # [p + Suc bs ..< length names]"
    using lt by (simp add: upt_conv_Cons)
  show ?case
    unfolding step Suc.hyps(1) [OF n pre pr le] a b by (simp add: add.assoc)
qed

subsection \<open>The parallel parse\<close>


lemma omp_parallel_for_sequential:
  "omp_parallel_for parse pending acc (acc @ map (\<lambda>l. (l, parse l)) pending)"
proof (induction pending arbitrary: acc)
  case Nil
  show ?case by (simp add: omp_parallel_for.finished)
next
  case (Cons l pending)
  have "omp_parallel_for parse (take 0 (l # pending) @ drop (Suc 0) (l # pending))
          (acc @ [((l # pending) ! 0, parse ((l # pending) ! 0))])
          ((acc @ [(l, parse l)]) @ map (\<lambda>l. (l, parse l)) pending)"
    using Cons [of "acc @ [(l, parse l)]"] by simp
  then have "omp_parallel_for parse (l # pending) acc
          ((acc @ [(l, parse l)]) @ map (\<lambda>l. (l, parse l)) pending)"
    by (rule omp_parallel_for.iteration [rotated]) simp
  then show ?case by simp
qed


lemma nth_slice_all: "map (\<lambda>i. f (al ! i)) [0 ..< length al] = map f al"
  by (rule nth_equalityI) simp_all

subsection \<open>The loop at a budget between the base prediction and one ligand\<close>

text \<open>
  At a budget that is above the base prediction and not above the prediction for any
  single ligand, the inner loop accepts one ligand and stops, and the outer loop gives
  every ligand a batch of its own.
\<close>

lemma fill_one:
  assumes "accepts L 0 0" and "p < length names"
    and "predicts L 1 (atom2 L (snd (al ! p)))" and "\<not> accepts L 1 (atom2 L (snd (al ! p)))"
  shows "fill L names al p 0 0 [] = Defined (1, atom2 L (snd (al ! p)), [snd (al ! p)])"
proof -
  have "fill L names al p 0 0 [] =
      fill L names al p (Suc 0) (0 + atom2 L (snd (al ! (p + 0)))) ([] @ [snd (al ! (p + 0))])"
    using assms(1,2) accepts_predicts [OF assms(1)] by (subst fill_unfold) simp
  also have "\<dots> = Defined (Suc 0, 0 + atom2 L (snd (al ! (p + 0))), [] @ [snd (al ! (p + 0))])"
    using assms(3,4) by (subst fill_unfold) simp
  finally show ?thesis by simp
qed

lemma batch_loop_one_per_ligand:
  assumes "accepts L 0 0"
    and "\<forall>i<length names. predicts L 1 (atom2 L (snd (al ! i)))
                           \<and> \<not> accepts L 1 (atom2 L (snd (al ! i)))"
  shows "batch_loop L names al p bid plan =
           Some (Defined (plan @ map (\<lambda>i. (bid + 1 + (i - p), [fst (al ! i)], [snd (al ! i)]))
                                    [p ..< length names]))"
proof (induction "length names - p" arbitrary: p bid plan)
  case 0
  then show ?case by (simp add: batch_loop_done)
next
  case (Suc n)
  then have lt: "p < length names" by simp
  have f: "fill L names al p 0 0 [] = Defined (1, atom2 L (snd (al ! p)), [snd (al ! p)])"
    using fill_one [OF assms(1) lt] assms(2) lt by simp
  have n: "n = length names - (p + 1)" using Suc.hyps(2) by simp
  have "batch_loop L names al p bid plan =
      batch_loop L names al (p + 1) (bid + 1)
        (plan @ [(bid + 1, map (\<lambda>i. fst (al ! i)) [p ..< p + 1], [snd (al ! p)])])"
    by (rule batch_loop_step [OF lt f])
  also have "\<dots> = Some (Defined ((plan @ [(bid + 1, map (\<lambda>i. fst (al ! i)) [p ..< p + 1], [snd (al ! p)])])
        @ map (\<lambda>i. (bid + 1 + 1 + (i - (p + 1)), [fst (al ! i)], [snd (al ! i)]))
            [p + 1 ..< length names]))"
    by (rule Suc.hyps(1) [OF n])
  also have "map (\<lambda>i. (bid + 1 + 1 + (i - (p + 1)), [fst (al ! i)], [snd (al ! i)]))
            [p + 1 ..< length names]
      = map (\<lambda>i. (bid + 1 + (i - p), [fst (al ! i)], [snd (al ! i)])) [p + 1 ..< length names]"
    by (rule map_cong) auto
  finally show ?case using lt by (simp add: upt_conv_Cons)
qed

subsection \<open>Examples of the loops\<close>

text \<open>Three ligands at a budget of 5400 MiB on the low-memory class: the first batch
  takes two. Once filled it is predicted at 5451, above the budget: the guard looks at
  the batch before the ligand is added.\<close>

lemma ex_fill:
  "fill (locals0\<lparr>max_memory := 5400, use_v100 := False, receptor_atom_numbers := 50\<rparr>)
     [''a'', ''b'', ''c''] [(''a'', Model 20), (''b'', Model 30), (''c'', Model 40)] 0 0 0 []
   = Defined (2, 11300, [Model 20, Model 30])"
  by (simp add: fill.simps predict_peak_memory_def double_eval locals0_def)

lemma ex_fill_exceeds:
  "predict_peak_memory 2 8 11300 False False = Defined 5451"
  by (simp add: predict_peak_memory_def double_eval)



subsection \<open>C3: every ligand is accepted under the budget\<close>

text \<open>
  C3: for every ligand the inner loop accepts into a batch, the predicted memory at the
  moment of acceptance is a number strictly less than the budget. The prediction at that
  moment is the one of the guard of line 577: for the ligand at position \<open>j\<close> of the
  batch it is made from the \<open>j\<close> ligands already in the batch and their summed squares.
  The code makes no exception for the first ligand of a batch (there \<open>j = 0\<close> and the sum
  is 0), so the statement covers the claim, which allows one. The ligand accepted at
  position \<open>j\<close> is \<open>all_ligands[processed_ligands + j]\<close>.
\<close>

theorem C3_accepted_under_budget:
  assumes "fill L names al p 0 0 [] = Defined (bs, c, bl)" and "j < bs"
  shows "\<exists>predicted.
           predict_peak_memory (int j) (exhaustiveness L) (slice_cost L al p (p + j))
             (use_v100 L) (ad4 L) = Defined predicted
           \<and> of_int predicted < max_memory L
           \<and> bl ! j = snd (al ! (p + j))"
proof -
  from fill_result [OF assms(1)]
  have a: "\<forall>j. 0 \<le> j \<and> j < bs \<longrightarrow> accepts L j (0 + slice_cost L al (p + 0) (p + j))"
    and b: "bl = [] @ map (\<lambda>i. snd (al ! i)) [p + 0 ..< p + bs]"
    by blast+
  from a assms(2) have "accepts L j (slice_cost L al p (p + j))" by simp
  moreover from b assms(2) have "bl ! j = snd (al ! (p + j))" by simp
  ultimately show ?thesis by (auto simp add: accepts_iff)
qed

theorem C3_accepted_under_budget_witness:
  "fill (locals0\<lparr>max_memory := 5400, use_v100 := False, receptor_atom_numbers := 50\<rparr>)
     [''a'', ''b'', ''c''] [(''a'', Model 20), (''b'', Model 30), (''c'', Model 40)] 0 0 0 []
   = Defined (2, 11300, [Model 20, Model 30])
   \<and> (1::nat) < 2
   \<and> (\<exists>predicted. predict_peak_memory 1 8 4900 False False = Defined predicted
         \<and> real_of_int predicted < 5400)
   \<and> [Model 20, Model 30] ! 1 = Model 30"
proof -
  have lt: "(1::nat) < 2" by simp
  have "slice_cost (locals0\<lparr>max_memory := 5400, use_v100 := False, receptor_atom_numbers := 50\<rparr>)
          [(''a'', Model 20), (''b'', Model 30), (''c'', Model 40)] 0 (0 + 1) = 4900"
    by (simp add: slice_cost_def atom2_def locals0_def)
  with C3_accepted_under_budget [OF ex_fill lt] ex_fill show ?thesis
    by (simp add: locals0_def)
qed

subsection \<open>C8: a budget above every prediction gives one batch\<close>

text \<open>
  C8: for a non-empty ligand list, if the budget is larger than every predicted value the
  guard compares it with (the prediction for the first \<open>j\<close> ligands, for every \<open>j\<close> below
  the number of ligands), the loop returns and its plan is exactly one batch, number 1,
  with all ligands in their order in \<open>all_ligands\<close>. The guard calls the predictor once
  more, for the full batch, before it tests the number of ligands left: that call must
  have a value, which need not be below the budget.
\<close>

theorem C8_infinite_budget_one_batch:
  assumes "names \<noteq> []" and "length al = length names"
    and "\<forall>j<length names.
           \<exists>predicted.
             predict_peak_memory (int j) (exhaustiveness L) (slice_cost L al 0 j)
               (use_v100 L) (ad4 L) = Defined predicted
             \<and> of_int predicted < max_memory L"
    and "predict_peak_memory (int (length names)) (exhaustiveness L)
           (slice_cost L al 0 (length names)) (use_v100 L) (ad4 L) \<noteq> Undefined"
  shows "batch_loop L names al 0 0 [] = Some (Defined [(1, map fst al, map snd al)])"
proof -
  have "\<forall>j. 0 \<le> j \<and> 0 + j < length names \<longrightarrow> accepts L j (0 + slice_cost L al (0 + 0) (0 + j))"
    using assms(3) by (simp add: accepts_iff)
  moreover have "predicts L (length names - 0) (0 + slice_cost L al (0 + 0) (length names))"
    using assms(4) by (simp add: predicts_def)
  ultimately have f: "fill L names al 0 0 0 [] =
      Defined (length names, slice_cost L al 0 (length names),
               map (\<lambda>i. snd (al ! i)) [0 ..< length names])"
    using fill_all [of 0 0 names L 0 al "[]"] by simp
  have lt: "0 < length names" using assms(1) by simp
  have "batch_loop L names al 0 0 [] =
      batch_loop L names al (0 + length names) (0 + 1)
        ([] @ [(0 + 1, map (\<lambda>i. fst (al ! i)) [0 ..< 0 + length names],
                map (\<lambda>i. snd (al ! i)) [0 ..< length names])])"
    by (rule batch_loop_step [OF lt f])
  also have "\<dots> = Some (Defined ([] @ [(0 + 1, map (\<lambda>i. fst (al ! i)) [0 ..< 0 + length names],
                map (\<lambda>i. snd (al ! i)) [0 ..< length names])]))"
    by (rule batch_loop_done) simp
  finally show ?thesis
    using nth_slice_all [of fst al] nth_slice_all [of snd al] assms(2) by simp
qed

theorem C8_infinite_budget_one_batch_witness:
  "[''a'', ''b'', ''c''] \<noteq> ([] :: string list)
   \<and> length [(''a'', Model 20), (''b'', Model 30), (''c'', Model 40)] = length [''a'', ''b'', ''c'']
   \<and> predict_peak_memory 3 8 19400 True False \<noteq> Undefined
   \<and> batch_loop (locals0\<lparr>max_memory := 30000, receptor_atom_numbers := 50\<rparr>)
        [''a'', ''b'', ''c''] [(''a'', Model 20), (''b'', Model 30), (''c'', Model 40)] 0 0 []
      = Some (Defined [(1, [''a'', ''b'', ''c''], [Model 20, Model 30, Model 40])])"
proof -
  let ?L = "locals0\<lparr>max_memory := 30000, receptor_atom_numbers := 50\<rparr>"
  let ?al = "[(''a'', Model 20), (''b'', Model 30), (''c'', Model 40)]"
  have n: "[''a'', ''b'', ''c''] \<noteq> ([] :: string list)" by simp
  have l: "length ?al = length [''a'', ''b'', ''c'']" by simp
  have c: "slice_cost ?L ?al 0 0 = 0" "slice_cost ?L ?al 0 1 = 4900" "slice_cost ?L ?al 0 2 = 11300"
    "slice_cost ?L ?al 0 3 = 19400"
    by (simp_all add: slice_cost_def atom2_def locals0_def upt_rec)
  have v: "predict_peak_memory 0 8 0 True False = Defined 20017"
    "predict_peak_memory 1 8 4900 True False = Defined 20077"
    "predict_peak_memory 2 8 11300 True False = Defined 20155"
    "predict_peak_memory 3 8 19400 True False = Defined 20253"
    by (simp_all add: predict_peak_memory_def double_eval)
  have a: "\<forall>j<length [''a'', ''b'', ''c''].
           \<exists>predicted. predict_peak_memory (int j) (exhaustiveness ?L) (slice_cost ?L ?al 0 j)
                     (use_v100 ?L) (ad4 ?L) = Defined predicted
             \<and> of_int predicted < max_memory ?L"
  proof (intro allI impI)
    fix j :: nat assume "j < length [''a'', ''b'', ''c'']"
    then have "j = 0 \<or> j = 1 \<or> j = 2" by auto
    then show "\<exists>predicted. predict_peak_memory (int j) (exhaustiveness ?L) (slice_cost ?L ?al 0 j)
                     (use_v100 ?L) (ad4 ?L) = Defined predicted
             \<and> of_int predicted < max_memory ?L"
      using c v by (auto simp add: locals0_def)
  qed
  have d: "predict_peak_memory (int (length [''a'', ''b'', ''c''])) (exhaustiveness ?L)
           (slice_cost ?L ?al 0 (length [''a'', ''b'', ''c''])) (use_v100 ?L) (ad4 ?L) \<noteq> Undefined"
  proof -
    have "length [''a'', ''b'', ''c''] = 3" by simp
    then show ?thesis unfolding \<open>length [''a'', ''b'', ''c''] = 3\<close>
      using c v by (simp add: locals0_def)
  qed
  from C8_infinite_budget_one_batch [OF n l a d] v(4) show ?thesis by simp
qed

subsection \<open>C1: the scheduler at a budget that is not above the base prediction\<close>

text \<open>
  C1 says that the scheduling loop terminates for every non-empty ligand list and every
  budget, and that no batch is empty. The code at one ligand and a budget of 16000 MiB
  (\<open>--max_gpu_memory 16000\<close> on a device with 32 GiB free, which the probe classifies as
  high-memory): the prediction for the empty batch is 20017, the guard of line 577
  fails at once, the batch is empty, \<open>processed_ligands\<close> stays 0 and the outer loop
  never ends.
\<close>

theorem C1_scheduler_stalls:
  "main env0 gpu_run
     = (Batch_scheduler gpu_run_locals [''a.pdbqt''],
        [Vina_init, Set_receptor, Set_vina_weights, Enable_gpu, Compute_vina_maps])
   \<and> max_memory gpu_run_locals = 16000 \<and> use_v100 gpu_run_locals
   \<and> predict_peak_memory 0 (exhaustiveness gpu_run_locals) 0 True False = Defined 20017
   \<and> omp_parallel_for parse0 [''a.pdbqt''] [] [(''a.pdbqt'', parse0 ''a.pdbqt'')]
   \<and> fill gpu_run_locals [''a.pdbqt''] [(''a.pdbqt'', parse0 ''a.pdbqt'')] 0 0 0 []
       = Defined (0, 0, [])
   \<and> batch_loop gpu_run_locals [''a.pdbqt''] [(''a.pdbqt'', parse0 ''a.pdbqt'')] 0 0 [] = None"
proof -
  have e: "exhaustiveness gpu_run_locals = 8" "use_v100 gpu_run_locals" "\<not> ad4 gpu_run_locals"
    "max_memory gpu_run_locals = 16000"
    by (simp_all add: gpu_run_locals_def gpu_run_def locals0_def)
  have v: "predict_peak_memory 0 (exhaustiveness gpu_run_locals) 0 True False = Defined 20017"
    unfolding e by (rule predict_base_v100) (simp add: int_range_def)
  have pr: "predicts gpu_run_locals 0 0"
    using v e by (simp add: predicts_def)
  have st: "\<not> accepts gpu_run_locals 0 0"
    using v e by (simp add: accepts_def)
  have "main env0 gpu_run
     = (Batch_scheduler gpu_run_locals [''a.pdbqt''],
        [Vina_init, Set_receptor, Set_vina_weights, Enable_gpu, Compute_vina_maps])"
    by (simp add: main_def validate_def check_receptor_maps_def apply_search_mode_def
        check_scoring_def check_ligand_source_def check_output_name_def read_ligand_index_def
        vm_count_def gpu_run_locals_def gpu_run_def locals0_def env0_def setup_calls_def
        dispatch_def gpu_calls_def probe_def)
  moreover have "max_memory gpu_run_locals = 16000 \<and> use_v100 gpu_run_locals"
    using e by simp
  moreover have "omp_parallel_for parse0 [''a.pdbqt''] [] [(''a.pdbqt'', parse0 ''a.pdbqt'')]"
    using omp_parallel_for_sequential [of parse0 "[''a.pdbqt'']" "[]"] by simp
  moreover have "fill gpu_run_locals [''a.pdbqt''] [(''a.pdbqt'', parse0 ''a.pdbqt'')] 0 0 0 []
      = Defined (0, 0, [])"
    by (rule fill_stall [OF pr st])
  moreover have "batch_loop gpu_run_locals [''a.pdbqt''] [(''a.pdbqt'', parse0 ''a.pdbqt'')] 0 0 []
      = None"
    by (rule batch_loop_stalls [OF pr st]) simp
  ultimately show ?thesis using v by blast
qed

subsection \<open>C2: the plan partitions the parsed ligands\<close>




subsection \<open>Validation and dispatch\<close>

lemma apply_search_mode_keeps:
  "vm (apply_search_mode L) = vm L" "sf_name (apply_search_mode L) = sf_name L"
  "score_only (apply_search_mode L) = score_only L" "local_only (apply_search_mode L) = local_only L"
  "randomize_only (apply_search_mode L) = randomize_only L"
  "ligand_names (apply_search_mode L) = ligand_names L"
  "out_dir (apply_search_mode L) = out_dir L"
  "ligand_index (apply_search_mode L) = ligand_index L"
  by (simp_all add: apply_search_mode_def Let_def)

lemma vm_count_apply_search_mode [simp]:
  "vm_count (apply_search_mode L) n = vm_count L n"
  by (simp add: vm_count_def apply_search_mode_keeps)

lemma check_receptor_maps_Inr: "check_receptor_maps L = Inr L' \<Longrightarrow> L' = L"
  by (simp add: check_receptor_maps_def split: if_splits)

lemma check_scoring_Inr: "check_scoring L = Inr L' \<Longrightarrow> L' = L"
  by (simp add: check_scoring_def split: if_splits)

lemma check_ligand_source_Inr: "check_ligand_source E L = Inr L' \<Longrightarrow> L' = L"
  by (simp add: check_ligand_source_def split: if_splits)

lemma check_output_name_Inr:
  "check_output_name E L = Inr L' \<Longrightarrow>
     vm L' = vm L \<and> sf_name L' = sf_name L \<and> score_only L' = score_only L
     \<and> local_only L' = local_only L \<and> randomize_only L' = randomize_only L
     \<and> ligand_index L' = ligand_index L"
  by (auto simp add: check_output_name_def split: if_splits)

lemma read_ligand_index_Inr:
  "read_ligand_index E L = Inr L' \<Longrightarrow>
     vm L' = vm L \<and> sf_name L' = sf_name L \<and> score_only L' = score_only L
     \<and> local_only L' = local_only L \<and> randomize_only L' = randomize_only L"
  by (auto simp add: read_ligand_index_def split: if_splits option.splits)

lemma validate_Inr:
  assumes "validate E L = Inr L'"
  shows "vm L' = vm L \<and> sf_name L' = sf_name L \<and> score_only L' = score_only L
     \<and> local_only L' = local_only L \<and> randomize_only L' = randomize_only L"
proof -
  from assms obtain L1 L2 L3 L4 where
    1: "check_receptor_maps L = Inr L1" and 2: "check_scoring (apply_search_mode L1) = Inr L2"
    and 3: "check_ligand_source E L2 = Inr L3" and 4: "check_output_name E L3 = Inr L4"
    and 5: "read_ligand_index E L4 = Inr L'"
    by (auto simp add: validate_def split: sum.splits)
  from check_receptor_maps_Inr [OF 1] check_scoring_Inr [OF 2] check_ligand_source_Inr [OF 3]
    check_output_name_Inr [OF 4] read_ligand_index_Inr [OF 5]
  show ?thesis by (simp add: apply_search_mode_keeps)
qed

lemma vm_count_validate: "validate E L = Inr L' \<Longrightarrow> vm_count L' n = vm_count L n"
  by (simp add: vm_count_def validate_Inr)

lemma perform_ok: "\<forall>c\<in>set cs. \<not> thr c \<Longrightarrow> perform thr cs t = (True, t @ cs)"
  by (induction cs arbitrary: t) simp_all

lemma setup_calls_events:
  "set (setup_calls L) \<subseteq> {Vina_init, Set_receptor, Set_vina_weights, Set_vinardo_weights,
     Set_ad4_weights, Load_maps, Write_maps}"
  by (auto simp add: setup_calls_def)

lemma perform_result:
  "perform thr cs t = (b, t') \<Longrightarrow>
     b = (\<forall>c\<in>set cs. \<not> thr c) \<and> set t' \<subseteq> set t \<union> set cs \<and> (b \<longrightarrow> t' = t @ cs)"
proof (induction cs arbitrary: t)
  case Nil
  then show ?case by auto
next
  case (Cons c cs)
  show ?case
  proof (cases "thr c")
    case True
    with Cons.prems show ?thesis by auto
  next
    case False
    with Cons.prems have "perform thr cs (t @ [c]) = (b, t')" by simp
    from Cons.IH [OF this] False show ?thesis by auto
  qed
qed

subsection \<open>C6: ad4, receptor and maps\<close>

text \<open>
  C6 as stated: with \<open>ad4\<close> selected, validation fails if and only if a receptor is
  given or no maps are given. Validation has more rules than those on the receptor and
  the maps: with \<open>ad4\<close>, maps, no receptor and no ligand option at all it fails with
  ``Missing ligand(s)'' (line 370).
\<close>

theorem C6_counterexample:
  "sf_name (locals0\<lparr>sf_name := ''ad4'', vm := [''maps'']\<rparr>) = ''ad4''
   \<and> \<not> vm_count (locals0\<lparr>sf_name := ''ad4'', vm := [''maps'']\<rparr>) ''receptor''
   \<and> vm_count (locals0\<lparr>sf_name := ''ad4'', vm := [''maps'']\<rparr>) ''maps''
   \<and> validate env0 (locals0\<lparr>sf_name := ''ad4'', vm := [''maps'']\<rparr>) = Inl Missing_ligands"
  by (simp add: validate_def locals0_def env0_def check_receptor_maps_def check_scoring_def
      apply_search_mode_def check_ligand_source_def vm_count_def)

text \<open>
  C6, amended: with \<open>ad4\<close> selected, validation fails on one of the receptor and maps
  rules (receptor together with maps, line 331; no receptor allowed with \<open>ad4\<close>, line
  357; maps missing, line 361) if and only if a receptor is given or no maps are given.
  With maps and no receptor the rules on the ligand source, the output directory, the
  output name and the index file still decide whether validation passes.
\<close>

theorem C6_ad4_receptor_and_maps_rules:
  assumes "sf_name L = ''ad4''"
  shows "(validate E L = Inl Receptor_and_maps \<or> validate E L = Inl Ad4_no_receptor_allowed
          \<or> validate E L = Inl Ad4_maps_missing)
         = (vm_count L ''receptor'' \<or> \<not> vm_count L ''maps'')"
proof -
  have s: "sf_name (apply_search_mode L) = ''ad4''" using assms by (simp add: apply_search_mode_keeps)
  show ?thesis
  proof (cases "vm_count L ''receptor''")
    case True
    then show ?thesis using s
      by (simp add: validate_def check_receptor_maps_def check_scoring_def)
  next
    case r: False
    show ?thesis
    proof (cases "vm_count L ''maps''")
      case False
      then show ?thesis using r s
        by (simp add: validate_def check_receptor_maps_def check_scoring_def)
    next
      case True
      have "validate E L = (case check_ligand_source E (apply_search_mode L) of Inl e \<Rightarrow> Inl e | Inr L \<Rightarrow>
        (case check_output_name E L of Inl e \<Rightarrow> Inl e | Inr L \<Rightarrow> read_ligand_index E L))"
        using True r s by (simp add: validate_def check_receptor_maps_def check_scoring_def)
      moreover have "check_ligand_source E M \<noteq> Inl Receptor_and_maps
          \<and> check_ligand_source E M \<noteq> Inl Ad4_no_receptor_allowed
          \<and> check_ligand_source E M \<noteq> Inl Ad4_maps_missing" for M
        by (simp add: check_ligand_source_def)
      moreover have "check_output_name E M \<noteq> Inl Receptor_and_maps
          \<and> check_output_name E M \<noteq> Inl Ad4_no_receptor_allowed
          \<and> check_output_name E M \<noteq> Inl Ad4_maps_missing" for M
        by (simp add: check_output_name_def)
      moreover have "read_ligand_index E M \<noteq> Inl Receptor_and_maps
          \<and> read_ligand_index E M \<noteq> Inl Ad4_no_receptor_allowed
          \<and> read_ligand_index E M \<noteq> Inl Ad4_maps_missing" for M
        by (simp add: read_ligand_index_def split: option.splits)
      ultimately have "validate E L \<noteq> Inl Receptor_and_maps
          \<and> validate E L \<noteq> Inl Ad4_no_receptor_allowed
          \<and> validate E L \<noteq> Inl Ad4_maps_missing"
        by (auto split: sum.splits)
      then show ?thesis using True r by simp
    qed
  qed
qed

theorem C6_ad4_receptor_and_maps_rules_witness:
  "sf_name (locals0\<lparr>sf_name := ''ad4'', vm := [''receptor'', ''ligand'']\<rparr>) = ''ad4''
   \<and> vm_count (locals0\<lparr>sf_name := ''ad4'', vm := [''receptor'', ''ligand'']\<rparr>) ''receptor''
   \<and> validate env0 (locals0\<lparr>sf_name := ''ad4'', vm := [''receptor'', ''ligand'']\<rparr>)
       = Inl Ad4_no_receptor_allowed"
proof -
  let ?L = "locals0\<lparr>sf_name := ''ad4'', vm := [''receptor'', ''ligand'']\<rparr>"
  have a: "sf_name ?L = ''ad4''" by simp
  have r: "vm_count ?L ''receptor''" by (simp add: vm_count_def)
  have "validate env0 ?L \<noteq> Inl Receptor_and_maps"
    by (simp add: validate_def check_receptor_maps_def vm_count_def check_scoring_def
        apply_search_mode_def)
  moreover have "validate env0 ?L \<noteq> Inl Ad4_maps_missing"
    by (simp add: validate_def check_receptor_maps_def vm_count_def check_scoring_def
        apply_search_mode_def)
  ultimately show ?thesis using C6_ad4_receptor_and_maps_rules [OF a, of env0] a r by simp
qed

subsection \<open>C7: the modes that the GPU batch branch does not support\<close>

text \<open>
  C7: when the run is validated, the engine set-up returns and the GPU batch branch is
  selected (no \<open>--ligand\<close>, and \<open>--gpu_batch\<close> or \<open>--ligand_index\<close>) together with one of
  \<open>randomize_only\<close>, \<open>score_only\<close>, \<open>local_only\<close>, then \<open>main\<close> prints the notice of line
  510 and returns 0. Before that it has made the set-up calls of lines 445--468 only:
  no map is computed, no ligand is set, nothing is scored, searched or written as a pose,
  and the batch scheduler is not reached.
\<close>

theorem C7_gpu_batch_unsupported_modes:
  assumes "\<not> help_flag L" and "\<not> help_advanced L" and "\<not> version L"
    and "validate E L = Inr L'"
    and "\<forall>c\<in>set (setup_calls L'). \<not> throws E c"
    and "\<not> vm_count L ''ligand''"
    and "vm_count L ''gpu_batch'' \<or> vm_count L ''ligand_index''"
    and "randomize_only L \<or> score_only L \<or> local_only L"
  shows "main E L = (Exit 0, setup_calls L' @ [Printf (''Not available under gpu_batch mode.'' @ [CHR 0x0A])])
         \<and> set (setup_calls L') \<subseteq> {Vina_init, Set_receptor, Set_vina_weights,
              Set_vinardo_weights, Set_ad4_weights, Load_maps, Write_maps}"
proof -
  note k = validate_Inr [OF assms(4)] vm_count_validate [OF assms(4)]
  have "perform (throws E) (setup_calls L') [] = (True, setup_calls L')"
    using perform_ok [OF assms(5), of "[]"] by simp
  moreover have "dispatch E L' t = (Exit 0, t @ [Printf (''Not available under gpu_batch mode.'' @ [CHR 0x0A])])" for t
    using assms(6,7,8) k by (simp add: dispatch_def)
  ultimately have "main E L = (Exit 0, setup_calls L' @ [Printf (''Not available under gpu_batch mode.'' @ [CHR 0x0A])])"
    using assms(1,2,3,4) by (simp add: main_def)
  then show ?thesis using setup_calls_events by simp
qed

theorem C7_gpu_batch_unsupported_modes_witness:
  "\<not> help_flag (locals0\<lparr>vm := [''receptor'', ''gpu_batch'', ''dir''], out_dir := ''out'',
        gpu_batch_ligand_names := [''a.pdbqt''], score_only := True\<rparr>)
   \<and> validate env0 (locals0\<lparr>vm := [''receptor'', ''gpu_batch'', ''dir''], out_dir := ''out'',
        gpu_batch_ligand_names := [''a.pdbqt''], score_only := True\<rparr>)
      = Inr (locals0\<lparr>vm := [''receptor'', ''gpu_batch'', ''dir''], out_dir := ''out'',
        gpu_batch_ligand_names := [''a.pdbqt''], score_only := True\<rparr>)
   \<and> vm_count (locals0\<lparr>vm := [''receptor'', ''gpu_batch'', ''dir''], out_dir := ''out'',
        gpu_batch_ligand_names := [''a.pdbqt''], score_only := True\<rparr>) ''gpu_batch''
   \<and> main env0 (locals0\<lparr>vm := [''receptor'', ''gpu_batch'', ''dir''], out_dir := ''out'',
        gpu_batch_ligand_names := [''a.pdbqt''], score_only := True\<rparr>)
      = (Exit 0, [Vina_init, Set_receptor, Set_vina_weights,
                  Printf (''Not available under gpu_batch mode.'' @ [CHR 0x0A])])"
proof -
  let ?L = "locals0\<lparr>vm := [''receptor'', ''gpu_batch'', ''dir''], out_dir := ''out'',
        gpu_batch_ligand_names := [''a.pdbqt''], score_only := True\<rparr>"
  have h: "\<not> help_flag ?L" "\<not> help_advanced ?L" "\<not> version ?L"
    by (simp_all add: locals0_def)
  have v: "validate env0 ?L = Inr ?L"
    by (simp add: validate_def check_receptor_maps_def apply_search_mode_def check_scoring_def
        check_ligand_source_def check_output_name_def read_ligand_index_def vm_count_def
        locals0_def env0_def)
  have t: "\<forall>c\<in>set (setup_calls ?L). \<not> throws env0 c" by (simp add: env0_def)
  have l: "\<not> vm_count ?L ''ligand''" by (simp add: vm_count_def)
  have g: "vm_count ?L ''gpu_batch'' \<or> vm_count ?L ''ligand_index''" by (simp add: vm_count_def)
  have m: "randomize_only ?L \<or> score_only ?L \<or> local_only ?L" by simp
  have s: "setup_calls ?L = [Vina_init, Set_receptor, Set_vina_weights]"
    by (simp add: setup_calls_def vm_count_def locals0_def)
  from C7_gpu_batch_unsupported_modes [OF h v t l g m] h(1) v s show ?thesis
    by (simp add: vm_count_def)
qed

subsection \<open>C9: the CPU batch variant\<close>

text \<open>
  C9 as stated: a validated run whose only ligand source is \<open>--batch\<close> does no engine
  work at all and exits with code 0. The set-up of lines 445--468 runs before the
  dispatch: with a receptor whose \<open>set_receptor\<close> throws, the validated run exits with
  code 1; with \<open>ad4\<close> and \<open>--write_maps\<close> the engine loads the maps and writes them.
\<close>

theorem C9_counterexample:
  "validate (env0\<lparr>throws := (\<lambda>c. c = Set_receptor)\<rparr>)
      (locals0\<lparr>vm := [''receptor'', ''batch'', ''dir''], out_dir := ''out''\<rparr>)
     = Inr (locals0\<lparr>vm := [''receptor'', ''batch'', ''dir''], out_dir := ''out''\<rparr>)
   \<and> main (env0\<lparr>throws := (\<lambda>c. c = Set_receptor)\<rparr>)
      (locals0\<lparr>vm := [''receptor'', ''batch'', ''dir''], out_dir := ''out''\<rparr>)
     = (Exit 1, [Vina_init, Set_receptor])
   \<and> validate env0
      (locals0\<lparr>sf_name := ''ad4'', vm := [''maps'', ''write_maps'', ''batch'', ''dir''],
         out_dir := ''out''\<rparr>)
     = Inr (locals0\<lparr>sf_name := ''ad4'', vm := [''maps'', ''write_maps'', ''batch'', ''dir''],
         out_dir := ''out''\<rparr>)
   \<and> main env0
      (locals0\<lparr>sf_name := ''ad4'', vm := [''maps'', ''write_maps'', ''batch'', ''dir''],
         out_dir := ''out''\<rparr>)
     = (Exit 0, [Vina_init, Set_ad4_weights, Load_maps, Write_maps])"
  by (simp add: main_def validate_def check_receptor_maps_def apply_search_mode_def
      check_scoring_def check_ligand_source_def check_output_name_def read_ligand_index_def
      vm_count_def locals0_def env0_def setup_calls_def dispatch_def)

text \<open>
  C9, amended: a validated run whose only ligand source is \<open>--batch\<close> (no \<open>--ligand\<close>, no
  \<open>--gpu_batch\<close>, no \<open>--ligand_index\<close>) takes no branch of the dispatch of lines
  470--610. The only engine calls it makes are set-up calls of lines 445--468 (the
  constructor, \<open>set_receptor\<close>, the weights and, for \<open>ad4\<close>, \<open>load_maps\<close> and
  \<open>write_maps\<close>): no ligand is set and nothing is scored, searched or written as a pose.
  It exits with code 0 when every set-up call returns, having made all of them, and with
  code 1 when one throws.
\<close>

theorem C9_cpu_batch_set_up_only:
  assumes "\<not> help_flag L" and "\<not> help_advanced L" and "\<not> version L"
    and "validate E L = Inr L'"
    and "vm_count L ''batch''"
    and "\<not> vm_count L ''ligand''" and "\<not> vm_count L ''gpu_batch''"
    and "\<not> vm_count L ''ligand_index''"
  shows "fst (main E L) = Exit (if \<exists>c\<in>set (setup_calls L'). throws E c then 1 else 0)
         \<and> set (snd (main E L)) \<subseteq> set (setup_calls L')
         \<and> set (setup_calls L') \<subseteq> {Vina_init, Set_receptor, Set_vina_weights,
              Set_vinardo_weights, Set_ad4_weights, Load_maps, Write_maps}
         \<and> ((\<forall>c\<in>set (setup_calls L'). \<not> throws E c) \<longrightarrow> main E L = (Exit 0, setup_calls L'))"
proof -
  note k = vm_count_validate [OF assms(4)]
  obtain b t where p: "perform (throws E) (setup_calls L') [] = (b, t)"
    by (cases "perform (throws E) (setup_calls L') []") auto
  from perform_result [OF p]
  have b: "b = (\<forall>c\<in>set (setup_calls L'). \<not> throws E c)"
    and t: "set t \<subseteq> set (setup_calls L')" and bt: "b \<longrightarrow> t = setup_calls L'"
    by simp_all
  have d: "dispatch E L' t = (Exit 0, t)"
    using assms(6,7,8) k by (simp add: dispatch_def)
  have m: "main E L = (if b then (Exit 0, t) else (Exit 1, t))"
    using assms(1,2,3,4) p d by (simp add: main_def)
  show ?thesis using m b t bt setup_calls_events by auto
qed

theorem C9_cpu_batch_set_up_only_witness:
  "\<not> help_flag (locals0\<lparr>vm := [''receptor'', ''batch'', ''dir''], out_dir := ''out''\<rparr>)
   \<and> validate env0 (locals0\<lparr>vm := [''receptor'', ''batch'', ''dir''], out_dir := ''out''\<rparr>)
      = Inr (locals0\<lparr>vm := [''receptor'', ''batch'', ''dir''], out_dir := ''out''\<rparr>)
   \<and> vm_count (locals0\<lparr>vm := [''receptor'', ''batch'', ''dir''], out_dir := ''out''\<rparr>) ''batch''
   \<and> main env0 (locals0\<lparr>vm := [''receptor'', ''batch'', ''dir''], out_dir := ''out''\<rparr>)
      = (Exit 0, [Vina_init, Set_receptor, Set_vina_weights])"
proof -
  let ?L = "locals0\<lparr>vm := [''receptor'', ''batch'', ''dir''], out_dir := ''out''\<rparr>"
  have h: "\<not> help_flag ?L" "\<not> help_advanced ?L" "\<not> version ?L"
    by (simp_all add: locals0_def)
  have v: "validate env0 ?L = Inr ?L"
    by (simp add: validate_def check_receptor_maps_def apply_search_mode_def check_scoring_def
        check_ligand_source_def check_output_name_def read_ligand_index_def vm_count_def
        locals0_def env0_def)
  have t: "\<forall>c\<in>set (setup_calls ?L). \<not> throws env0 c" by (simp add: env0_def)
  have b: "vm_count ?L ''batch''" by (simp add: vm_count_def)
  have l: "\<not> vm_count ?L ''ligand''" "\<not> vm_count ?L ''gpu_batch''" "\<not> vm_count ?L ''ligand_index''"
    by (simp_all add: vm_count_def)
  have s: "setup_calls ?L = [Vina_init, Set_receptor, Set_vina_weights]"
    by (simp add: setup_calls_def vm_count_def locals0_def)
  from C9_cpu_batch_set_up_only [OF h v b l] t h(1) v b s show ?thesis
    by simp
qed

end
